theory Spec2Isabelle
  imports Complex_Main "HOL-Library.Log_Nat"
begin

section \<open>Constants of the package (interfaces.go, lines 134--167)\<close>

text \<open>
  A \<open>time.Duration\<close> is a signed count of nanoseconds; the duration constants are
  written out in nanoseconds.
\<close>

definition Millisecond :: int where "Millisecond = 1000000"
definition Second :: int where "Second = 1000 * Millisecond"
definition Minute :: int where "Minute = 60 * Second"

definition DefaultPlainPort :: int where "DefaultPlainPort = 80"
definition DefaultSecurePort :: int where "DefaultSecurePort = 443"
definition DefaultThriftCollectorHost :: string where
  "DefaultThriftCollectorHost = ''collector.lightstep.com''"
definition DefaultGRPCCollectorHost :: string where
  "DefaultGRPCCollectorHost = ''collector-grpc.lightstep.com''"

definition DefaultMaxReportingPeriod :: int where "DefaultMaxReportingPeriod = 2500 * Millisecond"
definition DefaultMinReportingPeriod :: int where "DefaultMinReportingPeriod = 500 * Millisecond"
definition DefaultMaxSpans :: int where "DefaultMaxSpans = 1000"
definition DefaultReportTimeout :: int where "DefaultReportTimeout = 30 * Second"
definition DefaultReconnectPeriod :: int where "DefaultReconnectPeriod = 5 * Minute"

definition DefaultMaxLogKeyLen :: int where "DefaultMaxLogKeyLen = 256"
definition DefaultMaxLogValueLen :: int where "DefaultMaxLogValueLen = 1024"
definition DefaultMaxLogsPerSpan :: int where "DefaultMaxLogsPerSpan = 500"

text \<open>\<open>math.MaxInt32\<close>\<close>
definition DefaultGRPCMaxCallSendMsgSizeBytes :: int where
  "DefaultGRPCMaxCallSendMsgSizeBytes = 2147483647"

definition ComponentNameKey :: string where "ComponentNameKey = ''lightstep.component_name''"
definition GUIDKey :: string where "GUIDKey = ''lightstep.guid''"
definition HostnameKey :: string where "HostnameKey = ''lightstep.hostname''"
definition CommandLineKey :: string where "CommandLineKey = ''lightstep.command_line''"


section \<open>The data model: Endpoint and Options (lines 174--266)\<close>

record Endpoint =
  Host :: string
  Port :: int
  Plaintext :: bool

text \<open>
  A tag value is an \<open>interface{}\<close>: a dynamically typed value. \<open>Initialize\<close> only ever
  stores strings; the other constructors stand for what a caller may have stored.
\<close>

datatype tag_value = TagNil | TagString string | TagInt int | TagBool bool

text \<open>
  \<open>ot.Tags\<close> is a Go map, which is either \<open>nil\<close> (\<open>None\<close>) or a table. Reading a
  \<open>nil\<close> map finds nothing.
\<close>

type_synonym Tags = "(string \<rightharpoonup> tag_value) option"

definition tags_lookup :: "Tags \<Rightarrow> string \<Rightarrow> tag_value option" where
  "tags_lookup t k = (case t of None \<Rightarrow> None | Some m \<Rightarrow> m k)"

text \<open>
  Go's \<open>int\<close> and \<open>time.Duration\<close> fields are modelled as integers: \<open>Initialize\<close>
  compares them with zero and overwrites them with constants, it does no arithmetic on
  them except for the jitter of \<open>ReconnectPeriod\<close>, whose conversions are written out
  below. \<open>Recorder\<close> and \<open>ConnFactory\<close> are references that \<open>Initialize\<close> never
  touches: \<open>None\<close> is \<open>nil\<close>, \<open>Some h\<close> an opaque handle.
\<close>

record Options =
  AccessToken :: string
  Collector :: Endpoint
  Tags :: Tags
  LightStepAPI :: Endpoint
  MaxBufferedSpans :: int
  MaxLogKeyLen :: int
  MaxLogValueLen :: int
  MaxLogsPerSpan :: int
  GRPCMaxCallSendMsgSizeBytes :: int
  ReportingPeriod :: int
  MinReportingPeriod :: int
  ReportTimeout :: int
  DropSpanLogs :: bool
  Verbose :: bool
  UseThrift :: bool
  UseHttp :: bool
  UseGRPC :: bool
  ReconnectPeriod :: int
  Recorder :: "nat option"
  ConnFactory :: "nat option"


section \<open>What Initialize reads from the process and the platform\<close>

text \<open>
  \<open>os_Args\<close> is \<open>os.Args\<close>, \<open>os_Hostname\<close> the string returned by \<open>os.Hostname()\<close>
  (its error is discarded by the code), \<open>rand_Float64\<close> the value of the \<open>float64\<close>
  drawn by \<open>rand.Float64()\<close>. The last two fields are the freedoms the Go language
  leaves to the implementation on line 323: whether \<open>1 + 0.2*r\<close> is computed as one
  fused multiply-add (rounded once) or as a rounded product followed by a rounded sum, and
  the \<open>int64\<close> that a conversion from an out-of-range \<open>float64\<close> yields.
\<close>

record environment =
  os_Args :: "string list"
  os_Hostname :: string
  rand_Float64 :: rat
  fused_multiply_add :: bool
  int64_out_of_range :: int


section \<open>Library functions called by Initialize\<close>

text \<open>
  \<open>path.Base\<close>: the last element of a slash-separated path, after removing trailing
  slashes; \<open>.\<close> for the empty path and \<open>/\<close> for a path of slashes only.
\<close>

definition path_Base :: "string \<Rightarrow> string" where
  "path_Base p =
     (if p = [] then ''.''
      else let p1 = rev (dropWhile (\<lambda>c. c = CHR ''/'') (rev p));
               p2 = rev (takeWhile (\<lambda>c. c \<noteq> CHR ''/'') (rev p1))
           in if p2 = [] then ''/'' else p2)"

text \<open>\<open>strings.Join\<close>\<close>

fun strings_Join :: "string list \<Rightarrow> string \<Rightarrow> string" where
  "strings_Join [] sep = []"
| "strings_Join [x] sep = x"
| "strings_Join (x # y # ys) sep = x @ sep @ strings_Join (y # ys) sep"


section \<open>IEEE 754 binary64 arithmetic, as far as line 323 needs it\<close>

text \<open>
  A \<open>float64\<close> is modelled by the rational number it denotes. Every operation computes
  the exact result and rounds it to the nearest number with a 53-bit significand, ties to
  the even significand. The exponent range is not modelled: the magnitudes that line 323
  can produce, from \<open>2^-66\<close> to \<open>1.2 * 2^63\<close>, are far inside the normal range.
\<close>

definition pow2 :: "int \<Rightarrow> rat" where
  "pow2 k = (if 0 \<le> k then 2 ^ nat k else 1 / 2 ^ nat (- k))"

text \<open>The binary exponent \<open>e\<close> of a positive number: \<open>2^e \<le> x < 2^(e+1)\<close>.\<close>

definition binary_exponent :: "rat \<Rightarrow> int" where
  "binary_exponent x =
     (if 1 \<le> x then bitlen \<lfloor>x\<rfloor> - 1 else - bitlen (\<lceil>1 / x\<rceil> - 1))"

definition round_half_even :: "rat \<Rightarrow> int" where
  "round_half_even q =
     (let n = \<lfloor>q\<rfloor>; d = q - of_int n
      in if d < 1 / 2 then n
         else if 1 / 2 < d then n + 1
         else if even n then n else n + 1)"

definition float64_round :: "rat \<Rightarrow> rat" where
  "float64_round x =
     (if x = 0 then 0
      else let a = \<bar>x\<bar>; u = pow2 (binary_exponent a - 52)
           in sgn x * (of_int (round_half_even (a / u)) * u))"

text \<open>
  A binary64 number (exponent range aside): zero, or a number whose magnitude is an
  integer multiple of the unit in the last place of its binade.
\<close>

definition is_binary64 :: "rat \<Rightarrow> bool" where
  "is_binary64 z =
     (z = 0 \<or>
      (let q = \<bar>z\<bar> / pow2 (binary_exponent \<bar>z\<bar> - 52) in of_int \<lfloor>q\<rfloor> = q))"

text \<open>\<open>float64(d)\<close> for an integer \<open>d\<close>, and the rounded product and sum.\<close>

definition float64_of_int :: "int \<Rightarrow> rat" where
  "float64_of_int d = float64_round (of_int d)"

definition float64_mul :: "rat \<Rightarrow> rat \<Rightarrow> rat" where
  "float64_mul a b = float64_round (a * b)"

definition float64_add :: "rat \<Rightarrow> rat \<Rightarrow> rat" where
  "float64_add a b = float64_round (a + b)"

text \<open>The untyped constant \<open>0.2\<close>, converted to \<open>float64\<close>.\<close>

definition const_0_2 :: rat where
  "const_0_2 = float64_round (1 / 5)"

text \<open>
  \<open>time.Duration(y)\<close> for a \<open>float64\<close> \<open>y\<close>: the fraction is discarded (truncation
  towards zero); a value outside \<open>int64\<close> gives an implementation-dependent result.
\<close>

definition float64_truncate :: "rat \<Rightarrow> int" where
  "float64_truncate y = (if 0 \<le> y then \<lfloor>y\<rfloor> else \<lceil>y\<rceil>)"

definition int64_of_float64 :: "environment \<Rightarrow> rat \<Rightarrow> int" where
  "int64_of_float64 env y =
     (let t = float64_truncate y
      in if - (2 ^ 63) \<le> t \<and> t < 2 ^ 63 then t else int64_out_of_range env)"

text \<open>The factor \<open>1 + 0.2*rand.Float64()\<close>.\<close>

definition jitter_factor :: "environment \<Rightarrow> rat" where
  "jitter_factor env =
     (if fused_multiply_add env then float64_round (1 + const_0_2 * rand_Float64 env)
      else float64_add 1 (float64_mul const_0_2 (rand_Float64 env)))"

text \<open>Line 323: the right-hand side, for a \<open>ReconnectPeriod\<close> of \<open>d\<close> nanoseconds.\<close>

definition jitter :: "environment \<Rightarrow> int \<Rightarrow> int" where
  "jitter env d = int64_of_float64 env (float64_mul (float64_of_int d) (jitter_factor env))"


section \<open>Options.Initialize (lines 270--342)\<close>

text \<open>
  \<open>Initialize\<close> has a pointer receiver: it returns an error or \<open>nil\<close> and leaves its
  changes in the caller's \<open>Options\<close>. The model returns how the call ended together with
  the \<open>Options\<close> value as the call left it. The call can end in three ways: it returns
  \<open>nil\<close>, it returns an error, or \<open>os.Args[0]\<close> panics because \<open>os.Args\<close> is empty.
\<close>

datatype init_error = EmptyAccessToken | GUIDKeyNotSupported

datatype init_result = Ok | Failed init_error | Panicked

text \<open>
  Lines 280--309: each statement tests one field and overwrites that same field, so the
  sequence is one record update with a conditional per field.
\<close>

definition set_defaults :: "Options \<Rightarrow> Options" where
  "set_defaults opts = opts
     \<lparr> MaxBufferedSpans :=
         (if MaxBufferedSpans opts = 0 then DefaultMaxSpans else MaxBufferedSpans opts),
       MaxLogKeyLen :=
         (if MaxLogKeyLen opts = 0 then DefaultMaxLogKeyLen else MaxLogKeyLen opts),
       MaxLogValueLen :=
         (if MaxLogValueLen opts = 0 then DefaultMaxLogValueLen else MaxLogValueLen opts),
       MaxLogsPerSpan :=
         (if MaxLogsPerSpan opts = 0 then DefaultMaxLogsPerSpan else MaxLogsPerSpan opts),
       GRPCMaxCallSendMsgSizeBytes :=
         (if GRPCMaxCallSendMsgSizeBytes opts = 0 then DefaultGRPCMaxCallSendMsgSizeBytes
          else GRPCMaxCallSendMsgSizeBytes opts),
       ReportingPeriod :=
         (if ReportingPeriod opts = 0 then DefaultMaxReportingPeriod else ReportingPeriod opts),
       MinReportingPeriod :=
         (if MinReportingPeriod opts = 0 then DefaultMinReportingPeriod
          else MinReportingPeriod opts),
       ReportTimeout :=
         (if ReportTimeout opts = 0 then DefaultReportTimeout else ReportTimeout opts),
       ReconnectPeriod :=
         (if ReconnectPeriod opts = 0 then DefaultReconnectPeriod else ReconnectPeriod opts),
       Tags := (if Tags opts = None then Some Map.empty else Tags opts) \<rparr>"

text \<open>\<open>if _, found := m[k]; !found { m[k] = v }\<close>\<close>

definition set_if_absent ::
  "(string \<rightharpoonup> tag_value) \<Rightarrow> string \<Rightarrow> tag_value \<Rightarrow> (string \<rightharpoonup> tag_value)" where
  "set_if_absent m k v = (case m k of None \<Rightarrow> m(k \<mapsto> v) | Some _ \<Rightarrow> m)"

text \<open>
  Lines 312--314. \<open>os.Args[0]\<close> is evaluated only when the key is absent, and panics
  when \<open>os.Args\<close> is empty: that is \<open>None\<close>.
\<close>

definition set_component_tag ::
  "environment \<Rightarrow> (string \<rightharpoonup> tag_value) \<Rightarrow> (string \<rightharpoonup> tag_value) option" where
  "set_component_tag env m =
     (case m ComponentNameKey of
        Some _ \<Rightarrow> Some m
      | None \<Rightarrow>
          (case os_Args env of
             [] \<Rightarrow> None
           | arg0 # _ \<Rightarrow> Some (m(ComponentNameKey \<mapsto> TagString (path_Base arg0)))))"

text \<open>Lines 315--321.\<close>

definition set_host_tags ::
  "environment \<Rightarrow> (string \<rightharpoonup> tag_value) \<Rightarrow> (string \<rightharpoonup> tag_value)" where
  "set_host_tags env m =
     set_if_absent
       (set_if_absent m HostnameKey (TagString (os_Hostname env)))
       CommandLineKey (TagString (strings_Join (os_Args env) '' ''))"

text \<open>Lines 323--339.\<close>

definition set_endpoint :: "environment \<Rightarrow> Options \<Rightarrow> Options" where
  "set_endpoint env opts = opts
     \<lparr> ReconnectPeriod := jitter env (ReconnectPeriod opts),
       Collector := (Collector opts)
         \<lparr> Host :=
             (if Host (Collector opts) = []
              then (if UseThrift opts then DefaultThriftCollectorHost
                    else DefaultGRPCCollectorHost)
              else Host (Collector opts)),
           Port :=
             (if Port (Collector opts) \<le> 0
              then (if Plaintext (Collector opts) then DefaultPlainPort
                    else DefaultSecurePort)
              else Port (Collector opts)) \<rparr> \<rparr>"

definition Initialize :: "environment \<Rightarrow> Options \<Rightarrow> init_result \<times> Options" where
  "Initialize env opts =
     (if length (AccessToken opts) = 0 then (Failed EmptyAccessToken, opts)
      else if tags_lookup (Tags opts) GUIDKey \<noteq> None then (Failed GUIDKeyNotSupported, opts)
      else
        let opts1 = set_defaults opts;
            m = (case Tags opts1 of None \<Rightarrow> Map.empty | Some t \<Rightarrow> t)
        in case set_component_tag env m of
             None \<Rightarrow> (Panicked, opts1)
           | Some m1 \<Rightarrow>
               (Ok, set_endpoint env (opts1 \<lparr> Tags := Some (set_host_tags env m1) \<rparr>)))"


text \<open>The table that \<open>opts.Tags\<close> denotes when it is read.\<close>

definition tags_table :: "Options \<Rightarrow> (string \<rightharpoonup> tag_value)" where
  "tags_table opts = (case Tags opts of None \<Rightarrow> Map.empty | Some t \<Rightarrow> t)"


section \<open>Transport selection\<close>

text \<open>
  Modelled from the spec: the transports a collector client can use. The code that builds
  the collector client is not among the sources (only the three flags it reads, lines
  252--257, and the \<open>collectorClient\<close> interface it returns, lines 24--29). Spec
  section 6 names them legacy-RPC (Thrift), HTTP and gRPC.
\<close>

datatype transport = ThriftTransport | HttpTransport | GRPCTransport

text \<open>
  Modelled from the spec: the flags in their priority order, each with the transport it
  forces. Spec section 6: "priority order: legacy-RPC > HTTP > gRPC"; the comment of the
  flags (lines 252--254): "the following order is used to select for the first option:
  thrift, http, grpc".
\<close>

definition transport_flags :: "Options \<Rightarrow> (bool \<times> transport) list" where
  "transport_flags opts =
     [(UseThrift opts, ThriftTransport), (UseHttp opts, HttpTransport),
      (UseGRPC opts, GRPCTransport)]"

text \<open>
  Modelled from the spec: the selection of the transport, which is absent from the
  sources. The first flag that is set, in the priority order, decides; spec section 6:
  "gRPC is default", the comment of the flags: "If none are set to true, GRPC is
  defaulted to."
\<close>

definition select_transport :: "Options \<Rightarrow> transport" where
  "select_transport opts =
     (case filter fst (transport_flags opts) of
        [] \<Rightarrow> GRPCTransport
      | (flag, t) # rest \<Rightarrow> t)"


section \<open>The report buffer and the reporting engine\<close>

text \<open>
  Modelled from the spec: the report buffer, whose code is not among the sources (only
  the \<open>collectorClient\<close> interface that consumes it, lines 24--29). Spec section 3:
  an ordered sequence of pending span records and a counter of spans dropped due to
  capacity. The capacity is the bound the spec calls \<open>MaxBufferedSpans\<close>. The spec's
  second counter (dropped logs) and the truncation of log fields are left out: they
  change neither the sequence nor the dropped-span counter.
\<close>

record 'span ReportBuffer =
  rawSpans :: "'span list"
  capacity :: nat
  droppedSpanCount :: nat

text \<open>
  Modelled from the spec: the result of \<open>Append\<close>, which is absent from the sources.
  Spec section 4.1: it returns "accepted" or "dropped" and raises no error.
\<close>

datatype append_result = Accepted | Dropped

text \<open>
  Modelled from the spec: \<open>Append\<close>, absent from the sources. Spec section 4.1: if
  length < capacity, appends and returns "accepted"; if at capacity, increments the
  dropped-span counter and returns "dropped".
\<close>

definition Append :: "'span ReportBuffer \<Rightarrow> 'span \<Rightarrow> append_result \<times> 'span ReportBuffer" where
  "Append buf sp =
     (if length (rawSpans buf) < capacity buf
      then (Accepted, buf \<lparr> rawSpans := rawSpans buf @ [sp] \<rparr>)
      else (Dropped, buf \<lparr> droppedSpanCount := droppedSpanCount buf + 1 \<rparr>))"

text \<open>
  Modelled from the spec: a sequence of \<open>Append\<close> calls, one per span, in order
  (spec section 8, "for all sequences of Append calls").
\<close>

fun Appends :: "'span ReportBuffer \<Rightarrow> 'span list \<Rightarrow> 'span ReportBuffer" where
  "Appends buf [] = buf"
| "Appends buf (sp # spans) = Appends (snd (Append buf sp)) spans"

text \<open>
  Modelled from the spec: \<open>Snapshot\<close>, absent from the sources. Spec section 4.1: it
  exchanges the internal storage with an empty one and returns the previous sequence and
  the accumulated drop counter, which is reset.
\<close>

definition Snapshot :: "'span ReportBuffer \<Rightarrow> ('span list \<times> nat) \<times> 'span ReportBuffer" where
  "Snapshot buf =
     ((rawSpans buf, droppedSpanCount buf), buf \<lparr> rawSpans := [], droppedSpanCount := 0 \<rparr>)"

text \<open>
  Modelled from the spec: the states of the reporting engine, whose code is not among the
  sources (only the \<open>Tracer\<close> interface, lines 41--52). Spec section 4.3:
  Connecting, Idle, Reporting, Reconnecting, Disabled.
\<close>

datatype phase = Connecting | Idle | Reporting | Reconnecting | Disabled

text \<open>
  Modelled from the spec: the calls the engine makes on the collector client and on its
  connection (spec section 4.2): \<open>ConnectClient()\<close>, \<open>Report\<close> with the snapshot, and
  closing the connection.
\<close>

datatype 'span action = ConnectClient | Report "'span list" | CloseConnection

text \<open>
  Modelled from the spec: how a \<open>Report\<close> call ends (spec section 4.2). A transport
  failure comes with the answer of \<open>ShouldReconnect()\<close>; a response carries the
  server-reported error strings and the \<open>Disable()\<close> signal.
\<close>

datatype report_outcome = TransportFailure bool | Response "string list" bool

text \<open>
  Modelled from the spec: the three triggers the Idle state waits for (spec section 4.3).
\<close>

datatype trigger = TimerElapsed | BufferAtCapacity | FlushRequest

text \<open>
  Modelled from the spec: what can happen to the engine. \<open>RecordSpan\<close> is a finished
  span handed to the recorder; \<open>ConnectResult\<close> is a connection attempt and whether it
  succeeded; \<open>ReportResult\<close> is the end of the report in flight, with its outcome and
  whether the periodic rotation of the connection is due; \<open>Close\<close> and
  \<open>DisableTracer\<close> are the calls \<open>Close\<close> and \<open>Disable\<close> of the \<open>Tracer\<close>
  interface (lines 44--51).
\<close>

datatype 'span event =
    RecordSpan 'span
  | ConnectResult bool
  | Trigger trigger
  | ReportResult report_outcome bool
  | Close
  | DisableTracer

text \<open>
  Modelled from the spec: the engine's runtime state (spec section 3), reduced to the
  state of the machine and the buffer. The reporting period and the timestamps are left
  out: the spec gives no formula for them.
\<close>

record 'span engine =
  phase :: phase
  buffer :: "'span ReportBuffer"

text \<open>
  Modelled from the spec: one transition of the engine (spec section 4.3), absent from
  the sources. It returns the new state and the calls made on the collector client.
  \<^item> Disabled: every event is a no-op.
  \<^item> A recorded span is appended to the buffer in every other state.
  \<^item> Connecting calls \<open>ConnectClient()\<close>: on success Idle, on failure it stays.
    Reconnecting closes the existing connection and re-enters Connecting.
  \<^item> Idle, on any trigger: snapshot the buffer; an empty snapshot skips the network
    call; otherwise \<open>Report\<close> is called and the engine is Reporting.
  \<^item> Reporting, when the report ends: a response carrying \<open>Disable()\<close> leads to
    Disabled and releases the connection; another response leads to Reconnecting when
    the rotation is due and to Idle otherwise; a transport failure leads to
    Reconnecting when \<open>ShouldReconnect()\<close> holds and to Idle otherwise. The snapshot
    is never requeued.
  \<^item> \<open>Close\<close>: a final flush attempt, then the connection is released and the engine
    is Disabled regardless of the outcome. \<open>Disable\<close>: Disabled at once.
\<close>

definition step :: "'span engine \<Rightarrow> 'span event \<Rightarrow> 'span engine \<times> 'span action list" where
  "step s ev =
     (if phase s = Disabled then (s, [])
      else case ev of
        RecordSpan sp \<Rightarrow> (s \<lparr> buffer := snd (Append (buffer s) sp) \<rparr>, [])
      | ConnectResult ok \<Rightarrow>
          (if phase s = Connecting
           then (s \<lparr> phase := (if ok then Idle else Connecting) \<rparr>, [ConnectClient])
           else if phase s = Reconnecting
           then (s \<lparr> phase := (if ok then Idle else Connecting) \<rparr>,
                 [CloseConnection, ConnectClient])
           else (s, []))
      | Trigger t \<Rightarrow>
          (if phase s = Idle
           then (case Snapshot (buffer s) of
                   ((spans, dropped), buf) \<Rightarrow>
                     if spans = [] then (s \<lparr> buffer := buf \<rparr>, [])
                     else (s \<lparr> phase := Reporting, buffer := buf \<rparr>, [Report spans]))
           else (s, []))
      | ReportResult outcome rotation_due \<Rightarrow>
          (if phase s = Reporting
           then (case outcome of
                   Response errors disable \<Rightarrow>
                     if disable then (s \<lparr> phase := Disabled \<rparr>, [CloseConnection])
                     else (s \<lparr> phase := (if rotation_due then Reconnecting else Idle) \<rparr>, [])
                 | TransportFailure should_reconnect \<Rightarrow>
                     (s \<lparr> phase := (if should_reconnect then Reconnecting else Idle) \<rparr>, []))
           else (s, []))
      | Close \<Rightarrow>
          (case Snapshot (buffer s) of
             ((spans, dropped), buf) \<Rightarrow>
               (s \<lparr> phase := Disabled, buffer := buf \<rparr>,
                (if spans = [] then [] else [Report spans]) @ [CloseConnection]))
      | DisableTracer \<Rightarrow> (s \<lparr> phase := Disabled \<rparr>, [CloseConnection]))"

text \<open>
  Modelled from the spec: the engine processing a sequence of events, collecting the
  calls it makes in order.
\<close>

fun run :: "'span engine \<Rightarrow> 'span event list \<Rightarrow> 'span engine \<times> 'span action list" where
  "run s [] = (s, [])"
| "run s (ev # evs) =
     (case step s ev of
        (s1, calls1) \<Rightarrow> (case run s1 evs of (s2, calls2) \<Rightarrow> (s2, calls1 @ calls2)))"

text \<open>Whether a call is a \<open>Report\<close>.\<close>

fun is_Report :: "'span action \<Rightarrow> bool" where
  "is_Report (Report spans) = True"
| "is_Report ConnectClient = False"
| "is_Report CloseConnection = False"


section \<open>Concrete inputs\<close>

text \<open>The zero value \<open>Options{}\<close>.\<close>

definition zero_Options :: Options where
  "zero_Options =
     \<lparr> AccessToken = [], Collector = \<lparr> Host = [], Port = 0, Plaintext = False \<rparr>,
       Tags = None, LightStepAPI = \<lparr> Host = [], Port = 0, Plaintext = False \<rparr>,
       MaxBufferedSpans = 0, MaxLogKeyLen = 0, MaxLogValueLen = 0, MaxLogsPerSpan = 0,
       GRPCMaxCallSendMsgSizeBytes = 0, ReportingPeriod = 0, MinReportingPeriod = 0,
       ReportTimeout = 0, DropSpanLogs = False, Verbose = False, UseThrift = False,
       UseHttp = False, UseGRPC = False, ReconnectPeriod = 0, Recorder = None,
       ConnFactory = None \<rparr>"

text \<open>The options of the example program (lines 103--107) and a process running it.\<close>

definition trivial_Options :: Options where
  "trivial_Options = zero_Options
     \<lparr> AccessToken := ''YOUR_ACCESS_TOKEN'',
       Collector := \<lparr> Host = ''localhost'', Port = 9997, Plaintext = True \<rparr>,
       UseGRPC := True \<rparr>"

definition trivial_environment :: environment where
  "trivial_environment =
     \<lparr> os_Args = [''./lightstep_trivial'', ''--access_token=YOUR_ACCESS_TOKEN''],
       os_Hostname = ''localhost'', rand_Float64 = 1 / 2, fused_multiply_add = False,
       int64_out_of_range = - (2 ^ 63) \<rparr>"


text \<open>Options that carry a runtime GUID of the caller's.\<close>

definition guid_Options :: Options where
  "guid_Options = trivial_Options \<lparr> Tags := Some [''lightstep.guid'' \<mapsto> TagInt 42] \<rparr>"


text \<open>Options that select HTTP only and leave the collector host empty.\<close>

definition http_Options :: Options where
  "http_Options = zero_Options \<lparr> AccessToken := ''YOUR_ACCESS_TOKEN'', UseHttp := True \<rparr>"


text \<open>Options whose tags supply a hostname and a key of the caller's own.\<close>

definition tagged_Options :: Options where
  "tagged_Options = trivial_Options
     \<lparr> Tags := Some [''lightstep.hostname'' \<mapsto> TagString ''web-1'',
                      ''region'' \<mapsto> TagString ''eu''] \<rparr>"


text \<open>A new buffer for at most 1000 spans, and the 1500 spans of the scenario of spec section 8.\<close>

definition scenario_buffer :: "nat ReportBuffer" where
  "scenario_buffer = \<lparr> rawSpans = [], capacity = 1000, droppedSpanCount = 0 \<rparr>"

definition scenario_spans :: "nat list" where
  "scenario_spans = [0 ..< 1500]"

text \<open>An idle engine with one span buffered, and events that disable it and go on.\<close>

definition scenario_engine :: "nat engine" where
  "scenario_engine =
     \<lparr> phase = Idle, buffer = \<lparr> rawSpans = [7], capacity = 2, droppedSpanCount = 0 \<rparr> \<rparr>"

definition scenario_later_events :: "nat event list" where
  "scenario_later_events =
     [RecordSpan 8, Trigger FlushRequest, Trigger TimerElapsed, ConnectResult True,
      Trigger BufferAtCapacity, ReportResult (Response [] False) True, Close]"


text \<open>The example options with a negative reconnect period.\<close>

definition negative_period_Options :: Options where
  "negative_period_Options = trivial_Options \<lparr> ReconnectPeriod := - 10 \<rparr>"

text \<open>The example options with every limit and period negative and a negative port.\<close>

definition negative_Options :: Options where
  "negative_Options = trivial_Options
     \<lparr> Collector := \<lparr> Host = ''localhost'', Port = - 1, Plaintext = True \<rparr>,
       MaxBufferedSpans := - 1, MaxLogKeyLen := - 2, MaxLogValueLen := - 3,
       MaxLogsPerSpan := - 4, ReportingPeriod := - 5, MinReportingPeriod := - 6,
       ReportTimeout := - 7, ReconnectPeriod := - 10 \<rparr>"


text \<open>Options that set all three transport flags and leave the collector host empty.\<close>

definition all_flags_Options :: Options where
  "all_flags_Options = zero_Options
     \<lparr> AccessToken := ''YOUR_ACCESS_TOKEN'', UseThrift := True, UseHttp := True,
       UseGRPC := True \<rparr>"


section \<open>Validation\<close>

lemmas duration_defs = Millisecond_def Second_def Minute_def

lemmas default_defs =
  DefaultPlainPort_def DefaultSecurePort_def DefaultThriftCollectorHost_def
  DefaultGRPCCollectorHost_def DefaultMaxReportingPeriod_def DefaultMinReportingPeriod_def
  DefaultMaxSpans_def DefaultReportTimeout_def DefaultReconnectPeriod_def
  DefaultMaxLogKeyLen_def DefaultMaxLogValueLen_def DefaultMaxLogsPerSpan_def
  DefaultGRPCMaxCallSendMsgSizeBytes_def

lemmas key_defs = ComponentNameKey_def GUIDKey_def HostnameKey_def CommandLineKey_def

lemma Tags_set_defaults:
  "Tags (set_defaults opts) = Some (tags_table opts)"
  by (simp add: set_defaults_def tags_table_def split: option.splits)

subsection \<open>The four ways a call of Initialize ends\<close>

lemma Initialize_empty_token:
  "AccessToken opts = [] \<Longrightarrow> Initialize env opts = (Failed EmptyAccessToken, opts)"
  by (simp add: Initialize_def)

lemma Initialize_guid:
  "AccessToken opts \<noteq> [] \<Longrightarrow> tags_lookup (Tags opts) GUIDKey \<noteq> None \<Longrightarrow>
   Initialize env opts = (Failed GUIDKeyNotSupported, opts)"
  by (simp add: Initialize_def)

lemma Initialize_panic:
  "AccessToken opts \<noteq> [] \<Longrightarrow> tags_lookup (Tags opts) GUIDKey = None \<Longrightarrow>
   set_component_tag env (tags_table opts) = None \<Longrightarrow>
   Initialize env opts = (Panicked, set_defaults opts)"
  by (simp add: Initialize_def Let_def Tags_set_defaults)

lemma Initialize_ok:
  "AccessToken opts \<noteq> [] \<Longrightarrow> tags_lookup (Tags opts) GUIDKey = None \<Longrightarrow>
   set_component_tag env (tags_table opts) = Some m1 \<Longrightarrow>
   Initialize env opts =
     (Ok, set_endpoint env ((set_defaults opts) \<lparr> Tags := Some (set_host_tags env m1) \<rparr>))"
  by (simp add: Initialize_def Let_def Tags_set_defaults)

lemma Initialize_cases [case_names empty_token guid panic ok]:
  obtains
    "AccessToken opts = []" "Initialize env opts = (Failed EmptyAccessToken, opts)"
  | "AccessToken opts \<noteq> []" "tags_lookup (Tags opts) GUIDKey \<noteq> None"
      "Initialize env opts = (Failed GUIDKeyNotSupported, opts)"
  | "AccessToken opts \<noteq> []" "tags_lookup (Tags opts) GUIDKey = None"
      "set_component_tag env (tags_table opts) = None"
      "Initialize env opts = (Panicked, set_defaults opts)"
  | m1 where "AccessToken opts \<noteq> []" "tags_lookup (Tags opts) GUIDKey = None"
      "set_component_tag env (tags_table opts) = Some m1"
      "Initialize env opts =
         (Ok, set_endpoint env ((set_defaults opts) \<lparr> Tags := Some (set_host_tags env m1) \<rparr>))"
proof (cases "AccessToken opts = []")
  case True
  then show ?thesis using that(1) Initialize_empty_token by blast
next
  case tok: False
  show ?thesis
  proof (cases "tags_lookup (Tags opts) GUIDKey = None")
    case False
    then show ?thesis using that(2) tok Initialize_guid by blast
  next
    case g: True
    show ?thesis
    proof (cases "set_component_tag env (tags_table opts)")
      case None
      then show ?thesis using that(3) tok g Initialize_panic by blast
    next
      case (Some m1)
      then show ?thesis using that(4) tok g Initialize_ok by blast
    qed
  qed
qed

lemma Initialize_Ok_state:
  assumes "Initialize env opts = (Ok, opts')"
  obtains m where "opts' = set_endpoint env ((set_defaults opts) \<lparr> Tags := Some m \<rparr>)"
  using assms by (cases env opts rule: Initialize_cases) auto

text \<open>
  C1. An empty access token makes \<open>Initialize\<close> return the access-token error, whatever
  the other options are; with a non-empty access token \<open>Initialize\<close> never returns that
  error.
\<close>

theorem C1_access_token_required:
  "(AccessToken opts = [] \<longrightarrow> fst (Initialize env opts) = Failed EmptyAccessToken) \<and>
   (AccessToken opts \<noteq> [] \<longrightarrow> fst (Initialize env opts) \<noteq> Failed EmptyAccessToken)"
  by (cases env opts rule: Initialize_cases) simp_all

theorem C1_access_token_required_witness:
  "AccessToken zero_Options = [] \<and>
   fst (Initialize trivial_environment zero_Options) = Failed EmptyAccessToken \<and>
   AccessToken trivial_Options \<noteq> [] \<and>
   fst (Initialize trivial_environment trivial_Options) \<noteq> Failed EmptyAccessToken"
  using C1_access_token_required [of zero_Options trivial_environment]
    C1_access_token_required [of trivial_Options trivial_environment]
  by (simp add: zero_Options_def trivial_Options_def)

text \<open>
  C8. When \<open>Initialize\<close> returns an error, the options are exactly as the caller
  supplied them: both error returns come before any assignment.
\<close>

theorem C8_error_leaves_options_unchanged:
  "fst (Initialize env opts) = Failed e \<Longrightarrow> snd (Initialize env opts) = opts"
  by (cases env opts rule: Initialize_cases) simp_all

theorem C8_error_leaves_options_unchanged_witness:
  "fst (Initialize trivial_environment zero_Options) = Failed EmptyAccessToken \<and>
   snd (Initialize trivial_environment zero_Options) = zero_Options"
proof -
  have h: "fst (Initialize trivial_environment zero_Options) = Failed EmptyAccessToken"
    by (simp add: Initialize_def zero_Options_def)
  from C8_error_leaves_options_unchanged [OF h] h show ?thesis by simp
qed

text \<open>
  C9. When the tags contain the key \<open>lightstep.guid\<close>, \<open>Initialize\<close> returns an
  error; when the access token is not empty, so that nothing else is wrong, the error is
  the one about the GUID.
\<close>

theorem C9_guid_tag_rejected:
  "tags_lookup (Tags opts) ''lightstep.guid'' \<noteq> None \<Longrightarrow>
   (\<exists>e. fst (Initialize env opts) = Failed e) \<and>
   (AccessToken opts \<noteq> [] \<longrightarrow> fst (Initialize env opts) = Failed GUIDKeyNotSupported)"
  by (cases env opts rule: Initialize_cases) (simp_all add: GUIDKey_def)

theorem C9_guid_tag_rejected_witness:
  "tags_lookup (Tags guid_Options) ''lightstep.guid'' \<noteq> None \<and>
   AccessToken guid_Options \<noteq> [] \<and>
   fst (Initialize trivial_environment guid_Options) = Failed GUIDKeyNotSupported"
proof -
  have h: "tags_lookup (Tags guid_Options) ''lightstep.guid'' \<noteq> None"
    by (simp add: guid_Options_def tags_lookup_def)
  have t: "AccessToken guid_Options \<noteq> []"
    by (simp add: guid_Options_def trivial_Options_def zero_Options_def)
  from C9_guid_tag_rejected [OF h, of trivial_environment] h t show ?thesis by simp
qed

subsection \<open>Fields after a successful call\<close>

lemma Initialize_Ok_fields:
  assumes "Initialize env opts = (Ok, opts')"
  shows "MaxBufferedSpans opts' = MaxBufferedSpans (set_defaults opts)"
    and "MaxLogKeyLen opts' = MaxLogKeyLen (set_defaults opts)"
    and "MaxLogValueLen opts' = MaxLogValueLen (set_defaults opts)"
    and "MaxLogsPerSpan opts' = MaxLogsPerSpan (set_defaults opts)"
    and "ReportingPeriod opts' = ReportingPeriod (set_defaults opts)"
    and "MinReportingPeriod opts' = MinReportingPeriod (set_defaults opts)"
    and "ReportTimeout opts' = ReportTimeout (set_defaults opts)"
    and "ReconnectPeriod opts' = jitter env (ReconnectPeriod (set_defaults opts))"
    and "Collector opts' = Collector (set_endpoint env opts)"
proof -
  from assms obtain m where
    eq: "opts' = set_endpoint env ((set_defaults opts) \<lparr> Tags := Some m \<rparr>)"
    by (rule Initialize_Ok_state)
  show "MaxBufferedSpans opts' = MaxBufferedSpans (set_defaults opts)"
    by (simp add: eq set_endpoint_def)
  show "MaxLogKeyLen opts' = MaxLogKeyLen (set_defaults opts)"
    by (simp add: eq set_endpoint_def)
  show "MaxLogValueLen opts' = MaxLogValueLen (set_defaults opts)"
    by (simp add: eq set_endpoint_def)
  show "MaxLogsPerSpan opts' = MaxLogsPerSpan (set_defaults opts)"
    by (simp add: eq set_endpoint_def)
  show "ReportingPeriod opts' = ReportingPeriod (set_defaults opts)"
    by (simp add: eq set_endpoint_def)
  show "MinReportingPeriod opts' = MinReportingPeriod (set_defaults opts)"
    by (simp add: eq set_endpoint_def)
  show "ReportTimeout opts' = ReportTimeout (set_defaults opts)"
    by (simp add: eq set_endpoint_def)
  show "ReconnectPeriod opts' = jitter env (ReconnectPeriod (set_defaults opts))"
    by (simp add: eq set_endpoint_def)
  show "Collector opts' = Collector (set_endpoint env opts)"
    by (simp add: eq set_endpoint_def set_defaults_def)
qed

lemma trivial_Options_Ok:
  "fst (Initialize trivial_environment trivial_Options) = Ok"
  by (simp add: Initialize_def Let_def Tags_set_defaults tags_table_def tags_lookup_def
      set_component_tag_def trivial_Options_def zero_Options_def trivial_environment_def)

text \<open>
  C2. After a successful call each of the eight fields holds its documented default if it
  was zero and the supplied value otherwise; for \<open>ReconnectPeriod\<close> this is the value
  that the jitter of line 323 is then applied to.
\<close>

theorem C2_zero_fields_defaulted:
  assumes "Initialize env opts = (Ok, opts')"
  shows "MaxBufferedSpans opts' =
           (if MaxBufferedSpans opts = 0 then 1000 else MaxBufferedSpans opts) \<and>
         MaxLogKeyLen opts' = (if MaxLogKeyLen opts = 0 then 256 else MaxLogKeyLen opts) \<and>
         MaxLogValueLen opts' =
           (if MaxLogValueLen opts = 0 then 1024 else MaxLogValueLen opts) \<and>
         MaxLogsPerSpan opts' = (if MaxLogsPerSpan opts = 0 then 500 else MaxLogsPerSpan opts) \<and>
         ReportingPeriod opts' =
           (if ReportingPeriod opts = 0 then 2500 * Millisecond else ReportingPeriod opts) \<and>
         MinReportingPeriod opts' =
           (if MinReportingPeriod opts = 0 then 500 * Millisecond
            else MinReportingPeriod opts) \<and>
         ReportTimeout opts' =
           (if ReportTimeout opts = 0 then 30 * Second else ReportTimeout opts) \<and>
         ReconnectPeriod opts' =
           jitter env (if ReconnectPeriod opts = 0 then 5 * Minute else ReconnectPeriod opts)"
  by (simp add: Initialize_Ok_fields [OF assms] set_defaults_def default_defs)

theorem C2_zero_fields_defaulted_witness:
  "Initialize trivial_environment trivial_Options =
     (Ok, snd (Initialize trivial_environment trivial_Options)) \<and>
   MaxBufferedSpans (snd (Initialize trivial_environment trivial_Options)) = 1000 \<and>
   MaxLogKeyLen (snd (Initialize trivial_environment trivial_Options)) = 256 \<and>
   MaxLogValueLen (snd (Initialize trivial_environment trivial_Options)) = 1024 \<and>
   MaxLogsPerSpan (snd (Initialize trivial_environment trivial_Options)) = 500 \<and>
   ReportingPeriod (snd (Initialize trivial_environment trivial_Options)) = 2500000000 \<and>
   MinReportingPeriod (snd (Initialize trivial_environment trivial_Options)) = 500000000 \<and>
   ReportTimeout (snd (Initialize trivial_environment trivial_Options)) = 30000000000 \<and>
   ReconnectPeriod (snd (Initialize trivial_environment trivial_Options)) =
     jitter trivial_environment 300000000000"
proof -
  have h: "Initialize trivial_environment trivial_Options =
     (Ok, snd (Initialize trivial_environment trivial_Options))"
    using trivial_Options_Ok by (simp add: prod_eq_iff)
  from C2_zero_fields_defaulted [OF h] h show ?thesis
    by (simp add: trivial_Options_def zero_Options_def duration_defs)
qed

lemma Initialize_Ok_flags:
  assumes "Initialize env opts = (Ok, opts')"
  shows "UseThrift opts' = UseThrift opts"
    and "UseHttp opts' = UseHttp opts"
    and "UseGRPC opts' = UseGRPC opts"
proof -
  from assms obtain m where
    eq: "opts' = set_endpoint env ((set_defaults opts) \<lparr> Tags := Some m \<rparr>)"
    by (rule Initialize_Ok_state)
  show "UseThrift opts' = UseThrift opts"
    by (simp add: eq set_endpoint_def set_defaults_def)
  show "UseHttp opts' = UseHttp opts"
    by (simp add: eq set_endpoint_def set_defaults_def)
  show "UseGRPC opts' = UseGRPC opts"
    by (simp add: eq set_endpoint_def set_defaults_def)
qed

lemma select_transport_flags:
  "select_transport opts1 = select_transport opts2"
  if "UseThrift opts1 = UseThrift opts2" "UseHttp opts1 = UseHttp opts2"
     "UseGRPC opts1 = UseGRPC opts2"
  using that by (simp add: select_transport_def transport_flags_def)

lemma select_transport_priority:
  "UseThrift opts \<Longrightarrow> select_transport opts = ThriftTransport"
  "\<not> UseThrift opts \<Longrightarrow> UseHttp opts \<Longrightarrow> select_transport opts = HttpTransport"
  "\<not> UseThrift opts \<Longrightarrow> \<not> UseHttp opts \<Longrightarrow> select_transport opts = GRPCTransport"
  by (simp_all add: select_transport_def transport_flags_def)

text \<open>
  C4. The transport is selected in the priority order Thrift, HTTP, gRPC: Thrift when
  \<open>UseThrift\<close> is set, whatever the other flags are; otherwise HTTP when \<open>UseHttp\<close> is
  set, whatever \<open>UseGRPC\<close> is; otherwise gRPC, with \<open>UseGRPC\<close> set or with no flag set.
  \<open>Initialize\<close> changes none of the flags, so the selection is the same before and after
  a successful call. After a successful call on options with an empty collector host, the
  host is the Thrift collector host exactly when \<open>UseThrift\<close> is set, that is exactly
  when the selected transport is Thrift; in every other case, also when HTTP is selected,
  it is the gRPC collector host.
\<close>

theorem C4_transport_priority_and_default_host:
  assumes "Initialize env opts = (Ok, opts')" and "Host (Collector opts) = []"
  shows "(UseThrift opts \<longrightarrow> select_transport opts = ThriftTransport) \<and>
         (\<not> UseThrift opts \<and> UseHttp opts \<longrightarrow> select_transport opts = HttpTransport) \<and>
         (\<not> UseThrift opts \<and> \<not> UseHttp opts \<longrightarrow> select_transport opts = GRPCTransport) \<and>
         select_transport opts' = select_transport opts \<and>
         (UseThrift opts \<longrightarrow> Host (Collector opts') = ''collector.lightstep.com'') \<and>
         (\<not> UseThrift opts \<longrightarrow> Host (Collector opts') = ''collector-grpc.lightstep.com'') \<and>
         (Host (Collector opts') = DefaultThriftCollectorHost \<longleftrightarrow> UseThrift opts) \<and>
         (Host (Collector opts') = DefaultThriftCollectorHost \<longleftrightarrow>
            select_transport opts' = ThriftTransport) \<and>
         (select_transport opts' \<noteq> ThriftTransport \<longrightarrow>
            Host (Collector opts') = DefaultGRPCCollectorHost)"
proof -
  note p = select_transport_priority [of opts]
  have s: "select_transport opts' = select_transport opts"
    using Initialize_Ok_flags [OF assms(1)] by (rule select_transport_flags)
  have t: "select_transport opts = ThriftTransport \<longleftrightarrow> UseThrift opts"
    using p by (cases "UseThrift opts"; cases "UseHttp opts") simp_all
  have h: "Host (Collector opts') =
      (if UseThrift opts then ''collector.lightstep.com'' else ''collector-grpc.lightstep.com'')"
    using assms(2)
    by (simp add: Initialize_Ok_fields(9) [OF assms(1)] set_endpoint_def default_defs)
  have d: "DefaultThriftCollectorHost = ''collector.lightstep.com''"
    "DefaultGRPCCollectorHost = ''collector-grpc.lightstep.com''"
    by (simp_all add: default_defs)
  show ?thesis
    unfolding s t d using p by (simp add: h)
qed

theorem C4_transport_priority_and_default_host_witness:
  "Initialize trivial_environment http_Options =
     (Ok, snd (Initialize trivial_environment http_Options)) \<and>
   Host (Collector http_Options) = [] \<and>
   \<not> UseThrift http_Options \<and> UseHttp http_Options \<and> \<not> UseGRPC http_Options \<and>
   select_transport http_Options = HttpTransport \<and>
   select_transport (snd (Initialize trivial_environment http_Options)) = HttpTransport \<and>
   Host (Collector (snd (Initialize trivial_environment http_Options))) =
     ''collector-grpc.lightstep.com'' \<and>
   Initialize trivial_environment all_flags_Options =
     (Ok, snd (Initialize trivial_environment all_flags_Options)) \<and>
   Host (Collector all_flags_Options) = [] \<and>
   UseThrift all_flags_Options \<and> UseHttp all_flags_Options \<and> UseGRPC all_flags_Options \<and>
   select_transport (snd (Initialize trivial_environment all_flags_Options)) =
     ThriftTransport \<and>
   Host (Collector (snd (Initialize trivial_environment all_flags_Options))) =
     ''collector.lightstep.com''"
proof -
  have "fst (Initialize trivial_environment http_Options) = Ok"
    by (simp add: Initialize_def Let_def Tags_set_defaults tags_table_def tags_lookup_def
      set_component_tag_def http_Options_def zero_Options_def trivial_environment_def)
  then have h1: "Initialize trivial_environment http_Options =
     (Ok, snd (Initialize trivial_environment http_Options))"
    by (simp add: prod_eq_iff)
  have e1: "Host (Collector http_Options) = []"
    by (simp add: http_Options_def zero_Options_def)
  have f1: "\<not> UseThrift http_Options" "UseHttp http_Options" "\<not> UseGRPC http_Options"
    by (simp_all add: http_Options_def zero_Options_def)
  have "fst (Initialize trivial_environment all_flags_Options) = Ok"
    by (simp add: Initialize_def Let_def Tags_set_defaults tags_table_def tags_lookup_def
      set_component_tag_def all_flags_Options_def zero_Options_def trivial_environment_def)
  then have h2: "Initialize trivial_environment all_flags_Options =
     (Ok, snd (Initialize trivial_environment all_flags_Options))"
    by (simp add: prod_eq_iff)
  have e2: "Host (Collector all_flags_Options) = []"
    by (simp add: all_flags_Options_def zero_Options_def)
  have f2: "UseThrift all_flags_Options" "UseHttp all_flags_Options" "UseGRPC all_flags_Options"
    by (simp_all add: all_flags_Options_def zero_Options_def)
  note t1 = C4_transport_priority_and_default_host [OF h1 e1]
  note t2 = C4_transport_priority_and_default_host [OF h2 e2]
  have a: "select_transport http_Options = HttpTransport"
    "select_transport (snd (Initialize trivial_environment http_Options)) = HttpTransport"
    "Host (Collector (snd (Initialize trivial_environment http_Options))) =
       ''collector-grpc.lightstep.com''"
    using t1 f1 by simp_all
  have b: "select_transport (snd (Initialize trivial_environment all_flags_Options)) =
       ThriftTransport"
    "Host (Collector (snd (Initialize trivial_environment all_flags_Options))) =
       ''collector.lightstep.com''"
    using t2 f2 by simp_all
  from h1 e1 f1 a h2 e2 f2 b show ?thesis by (intro conjI)
qed

subsection \<open>Tags after a successful call\<close>

lemma tags_lookup_table: "tags_lookup (Tags opts) k = tags_table opts k"
  by (simp add: tags_lookup_def tags_table_def split: option.splits)

lemma set_component_tag_Some:
  assumes "set_component_tag env m = Some m1"
  shows "m1 ComponentNameKey \<noteq> None"
    and "k \<noteq> ComponentNameKey \<Longrightarrow> m1 k = m k"
    and "m ComponentNameKey = Some v \<Longrightarrow> m1 ComponentNameKey = Some v"
    and "m ComponentNameKey = None \<Longrightarrow>
         \<exists>arg0 rest. os_Args env = arg0 # rest \<and>
           m1 ComponentNameKey = Some (TagString (path_Base arg0))"
  using assms
  by (auto simp: set_component_tag_def split: option.splits list.splits)

lemma set_if_absent_apply:
  "set_if_absent m k v k' = (if k' = k \<and> m k = None then Some v else m k')"
  by (auto simp: set_if_absent_def split: option.splits)

lemma set_host_tags_apply:
  "set_host_tags env m k =
     (if k = HostnameKey \<and> m HostnameKey = None then Some (TagString (os_Hostname env))
      else if k = CommandLineKey \<and> m CommandLineKey = None
      then Some (TagString (strings_Join (os_Args env) '' ''))
      else m k)"
  by (simp add: set_host_tags_def set_if_absent_apply key_defs)

lemma Initialize_Ok_tags:
  assumes "Initialize env opts = (Ok, opts')"
  obtains m1 where "set_component_tag env (tags_table opts) = Some m1"
    and "Tags opts' = Some (set_host_tags env m1)"
  using assms
  by (cases env opts rule: Initialize_cases) (auto simp: set_endpoint_def)

text \<open>
  C5. After a successful call the tags are a table that has the component-name, hostname
  and command-line keys. Every entry the caller supplied is still there with its value,
  no key other than these three has been added, and where one of the three was absent its
  value is the one derived from the process: the base name of \<open>os.Args[0]\<close>, the
  hostname, the joined command line.
\<close>

theorem C5_default_tags:
  assumes "Initialize env opts = (Ok, opts')"
  shows "\<exists>m. Tags opts' = Some m \<and>
           m ComponentNameKey \<noteq> None \<and> m HostnameKey \<noteq> None \<and> m CommandLineKey \<noteq> None \<and>
           (\<forall>k v. tags_lookup (Tags opts) k = Some v \<longrightarrow> m k = Some v) \<and>
           (\<forall>k. k \<noteq> ComponentNameKey \<and> k \<noteq> HostnameKey \<and> k \<noteq> CommandLineKey \<longrightarrow>
                m k = tags_lookup (Tags opts) k) \<and>
           (tags_lookup (Tags opts) ComponentNameKey = None \<longrightarrow>
              (\<exists>arg0 rest. os_Args env = arg0 # rest \<and>
                 m ComponentNameKey = Some (TagString (path_Base arg0)))) \<and>
           (tags_lookup (Tags opts) HostnameKey = None \<longrightarrow>
              m HostnameKey = Some (TagString (os_Hostname env))) \<and>
           (tags_lookup (Tags opts) CommandLineKey = None \<longrightarrow>
              m CommandLineKey = Some (TagString (strings_Join (os_Args env) '' '')))"
proof -
  from assms obtain m1 where
    c: "set_component_tag env (tags_table opts) = Some m1" and
    t: "Tags opts' = Some (set_host_tags env m1)"
    by (rule Initialize_Ok_tags)
  note m1 = set_component_tag_Some [OF c]
  have other: "m1 HostnameKey = tags_table opts HostnameKey"
    "m1 CommandLineKey = tags_table opts CommandLineKey"
    by (simp_all add: m1(2) key_defs)
  let ?m = "set_host_tags env m1"
  have 1: "?m ComponentNameKey \<noteq> None"
    using m1(1) by (simp add: set_host_tags_apply key_defs)
  have 2: "?m HostnameKey \<noteq> None"
    by (simp add: set_host_tags_apply key_defs)
  have 3: "?m CommandLineKey \<noteq> None"
    by (simp add: set_host_tags_apply key_defs)
  have 4: "?m k = Some v" if "tags_lookup (Tags opts) k = Some v" for k v
  proof (cases "k = ComponentNameKey")
    case True
    with that m1(3) show ?thesis
      by (simp add: tags_lookup_table set_host_tags_apply key_defs)
  next
    case False
    with that m1(2) [OF False] other show ?thesis
      by (auto simp: tags_lookup_table set_host_tags_apply)
  qed
  have 5: "?m k = tags_lookup (Tags opts) k"
    if "k \<noteq> ComponentNameKey \<and> k \<noteq> HostnameKey \<and> k \<noteq> CommandLineKey" for k
    using that m1(2) by (simp add: tags_lookup_table set_host_tags_apply)
  have 6: "\<exists>arg0 rest. os_Args env = arg0 # rest \<and>
      ?m ComponentNameKey = Some (TagString (path_Base arg0))"
    if "tags_lookup (Tags opts) ComponentNameKey = None"
    using m1(4) that by (simp add: tags_lookup_table set_host_tags_apply key_defs)
  have 7: "?m HostnameKey = Some (TagString (os_Hostname env))"
    if "tags_lookup (Tags opts) HostnameKey = None"
    using that other by (simp add: tags_lookup_table set_host_tags_apply)
  have 8: "?m CommandLineKey = Some (TagString (strings_Join (os_Args env) '' ''))"
    if "tags_lookup (Tags opts) CommandLineKey = None"
    using that other by (simp add: tags_lookup_table set_host_tags_apply key_defs)
  show ?thesis
  proof (intro exI [of _ ?m] conjI allI impI)
    show "Tags opts' = Some ?m" by (rule t)
    show "?m ComponentNameKey \<noteq> None" by (rule 1)
    show "?m HostnameKey \<noteq> None" by (rule 2)
    show "?m CommandLineKey \<noteq> None" by (rule 3)
    show "?m k = Some v" if "tags_lookup (Tags opts) k = Some v" for k v
      using that by (rule 4)
    show "?m k = tags_lookup (Tags opts) k"
      if "k \<noteq> ComponentNameKey \<and> k \<noteq> HostnameKey \<and> k \<noteq> CommandLineKey" for k
      using that by (rule 5)
    show "\<exists>arg0 rest. os_Args env = arg0 # rest \<and>
        ?m ComponentNameKey = Some (TagString (path_Base arg0))"
      if "tags_lookup (Tags opts) ComponentNameKey = None"
      using that by (rule 6)
    show "?m HostnameKey = Some (TagString (os_Hostname env))"
      if "tags_lookup (Tags opts) HostnameKey = None"
      using that by (rule 7)
    show "?m CommandLineKey = Some (TagString (strings_Join (os_Args env) '' ''))"
      if "tags_lookup (Tags opts) CommandLineKey = None"
      using that by (rule 8)
  qed
qed

lemma tagged_Options_Ok:
  "Initialize trivial_environment tagged_Options =
     (Ok, snd (Initialize trivial_environment tagged_Options))"
  by (simp add: prod_eq_iff Initialize_def Let_def Tags_set_defaults tags_table_def
      tags_lookup_def set_component_tag_def tagged_Options_def trivial_Options_def
      zero_Options_def trivial_environment_def key_defs)

lemma tagged_Options_tags:
  "tags_lookup (Tags tagged_Options) ComponentNameKey = None"
  "tags_lookup (Tags tagged_Options) HostnameKey = Some (TagString ''web-1'')"
  "tags_lookup (Tags tagged_Options) CommandLineKey = None"
  "tags_lookup (Tags tagged_Options) ''region'' = Some (TagString ''eu'')"
  by (simp_all add: tagged_Options_def tags_lookup_def key_defs)

theorem C5_default_tags_witness:
  "Initialize trivial_environment tagged_Options =
     (Ok, snd (Initialize trivial_environment tagged_Options)) \<and>
   (\<exists>m. Tags (snd (Initialize trivial_environment tagged_Options)) = Some m \<and>
      m ''lightstep.component_name'' = Some (TagString ''lightstep_trivial'') \<and>
      m ''lightstep.hostname'' = Some (TagString ''web-1'') \<and>
      m ''lightstep.command_line'' =
        Some (TagString ''./lightstep_trivial --access_token=YOUR_ACCESS_TOKEN'') \<and>
      m ''region'' = Some (TagString ''eu''))"
proof -
  obtain m where
    m: "Tags (snd (Initialize trivial_environment tagged_Options)) = Some m"
      "\<forall>k v. tags_lookup (Tags tagged_Options) k = Some v \<longrightarrow> m k = Some v"
      "tags_lookup (Tags tagged_Options) ComponentNameKey = None \<longrightarrow>
         (\<exists>arg0 rest. os_Args trivial_environment = arg0 # rest \<and>
            m ComponentNameKey = Some (TagString (path_Base arg0)))"
      "tags_lookup (Tags tagged_Options) CommandLineKey = None \<longrightarrow>
         m CommandLineKey =
           Some (TagString (strings_Join (os_Args trivial_environment) '' ''))"
    using C5_default_tags [OF tagged_Options_Ok] by (elim exE conjE) (rule that)
  have a: "m ''lightstep.component_name'' = Some (TagString ''lightstep_trivial'')"
    using m(3) tagged_Options_tags(1)
    by (simp add: trivial_environment_def path_Base_def key_defs)
  have b: "m ''lightstep.hostname'' = Some (TagString ''web-1'')"
    using m(2) tagged_Options_tags(2) by (simp add: key_defs)
  have c: "m ''lightstep.command_line'' =
      Some (TagString ''./lightstep_trivial --access_token=YOUR_ACCESS_TOKEN'')"
    using m(4) tagged_Options_tags(3)
    by (simp add: trivial_environment_def key_defs)
  have d: "m ''region'' = Some (TagString ''eu'')"
    using m(2) tagged_Options_tags(4) by simp
  from m(1) a b c d have "\<exists>m. Tags (snd (Initialize trivial_environment tagged_Options)) = Some m \<and>
      m ''lightstep.component_name'' = Some (TagString ''lightstep_trivial'') \<and>
      m ''lightstep.hostname'' = Some (TagString ''web-1'') \<and>
      m ''lightstep.command_line'' =
        Some (TagString ''./lightstep_trivial --access_token=YOUR_ACCESS_TOKEN'') \<and>
      m ''region'' = Some (TagString ''eu'')"
    by (intro exI [of _ m] conjI)
  with tagged_Options_Ok show ?thesis by (intro conjI)
qed

subsection \<open>The report buffer\<close>

lemma Append_capacity: "capacity (snd (Append buf sp)) = capacity buf"
  by (simp add: Append_def)

lemma Append_rawSpans:
  "rawSpans (snd (Append buf sp)) =
     rawSpans buf @ take (capacity buf - length (rawSpans buf)) [sp]"
  by (simp add: Append_def)

lemma Append_dropped:
  "droppedSpanCount (snd (Append buf sp)) =
     droppedSpanCount buf + (1 - (capacity buf - length (rawSpans buf)))"
  by (simp add: Append_def)

lemma Appends_capacity: "capacity (Appends buf spans) = capacity buf"
  by (induction spans arbitrary: buf) (simp_all add: Append_capacity)

lemma Appends_rawSpans:
  "rawSpans (Appends buf spans) =
     rawSpans buf @ take (capacity buf - length (rawSpans buf)) spans"
proof (induction spans arbitrary: buf)
  case Nil
  show ?case by simp
next
  case (Cons sp spans)
  show ?case
  proof (cases "length (rawSpans buf) < capacity buf")
    case True
    then obtain d where d: "capacity buf - length (rawSpans buf) = Suc d"
      by (metis Suc_diff_Suc)
    then have "capacity buf - Suc (length (rawSpans buf)) = d" by simp
    with True d show ?thesis
      by (simp add: Cons.IH Append_capacity Append_rawSpans)
  next
    case False
    then show ?thesis
      by (simp add: Cons.IH Append_capacity Append_rawSpans)
  qed
qed

lemma Appends_dropped:
  "droppedSpanCount (Appends buf spans) =
     droppedSpanCount buf + (length spans - (capacity buf - length (rawSpans buf)))"
proof (induction spans arbitrary: buf)
  case Nil
  show ?case by simp
next
  case (Cons sp spans)
  show ?case
    by (cases "length (rawSpans buf) < capacity buf")
       (auto simp: Cons.IH Append_capacity Append_rawSpans Append_dropped)
qed

text \<open>
  C6. Starting from a buffer that is within its capacity (a new, empty buffer is), any
  sequence of appends leaves the buffer within its capacity. The buffer then holds what it
  held before followed by the earliest of the new spans that fit, and the dropped-span
  counter has grown by the number of those that did not. An append to a buffer at capacity
  returns "dropped" (there is no error result), adds exactly one to the counter and
  changes nothing else.
\<close>

theorem C6_bounded_buffer:
  assumes "length (rawSpans buf) \<le> capacity buf"
  shows "length (rawSpans (Appends buf spans)) \<le> capacity buf \<and>
         capacity (Appends buf spans) = capacity buf \<and>
         rawSpans (Appends buf spans) =
           rawSpans buf @ take (capacity buf - length (rawSpans buf)) spans \<and>
         droppedSpanCount (Appends buf spans) =
           droppedSpanCount buf + (length spans - (capacity buf - length (rawSpans buf))) \<and>
         (length (rawSpans (Appends buf spans)) = capacity buf \<longrightarrow>
            Append (Appends buf spans) sp =
              (Dropped, (Appends buf spans)
                 \<lparr> droppedSpanCount := droppedSpanCount (Appends buf spans) + 1 \<rparr>))"
proof (intro conjI impI)
  show "length (rawSpans (Appends buf spans)) \<le> capacity buf"
    using assms by (simp add: Appends_rawSpans)
  show "capacity (Appends buf spans) = capacity buf"
    by (rule Appends_capacity)
  show "rawSpans (Appends buf spans) =
      rawSpans buf @ take (capacity buf - length (rawSpans buf)) spans"
    by (rule Appends_rawSpans)
  show "droppedSpanCount (Appends buf spans) =
      droppedSpanCount buf + (length spans - (capacity buf - length (rawSpans buf)))"
    by (rule Appends_dropped)
  show "Append (Appends buf spans) sp =
      (Dropped, (Appends buf spans)
         \<lparr> droppedSpanCount := droppedSpanCount (Appends buf spans) + 1 \<rparr>)"
    if "length (rawSpans (Appends buf spans)) = capacity buf"
    using that by (simp add: Append_def Appends_capacity)
qed

theorem C6_bounded_buffer_witness:
  "length (rawSpans scenario_buffer) \<le> capacity scenario_buffer \<and>
   length (rawSpans (Appends scenario_buffer scenario_spans)) = 1000 \<and>
   droppedSpanCount (Appends scenario_buffer scenario_spans) = 500 \<and>
   fst (Append (Appends scenario_buffer scenario_spans) 1500) = Dropped \<and>
   droppedSpanCount (snd (Append (Appends scenario_buffer scenario_spans) 1500)) = 501 \<and>
   rawSpans (snd (Append (Appends scenario_buffer scenario_spans) 1500)) =
     rawSpans (Appends scenario_buffer scenario_spans)"
proof -
  have h: "length (rawSpans scenario_buffer) \<le> capacity scenario_buffer"
    by (simp add: scenario_buffer_def)
  note t = C6_bounded_buffer [OF h, of scenario_spans 1500]
  have len: "length (rawSpans (Appends scenario_buffer scenario_spans)) = 1000"
    using t by (simp add: scenario_buffer_def scenario_spans_def)
  have cap: "capacity scenario_buffer = 1000"
    by (simp add: scenario_buffer_def)
  have drop: "droppedSpanCount (Appends scenario_buffer scenario_spans) = 500"
    using t by (simp add: scenario_buffer_def scenario_spans_def)
  have app: "Append (Appends scenario_buffer scenario_spans) 1500 =
      (Dropped, (Appends scenario_buffer scenario_spans)
         \<lparr> droppedSpanCount := droppedSpanCount (Appends scenario_buffer scenario_spans) + 1 \<rparr>)"
    using t len cap by simp
  show ?thesis using h len drop by (simp add: app)
qed

subsection \<open>The reporting engine\<close>

lemma step_Disabled: "phase s = Disabled \<Longrightarrow> step s ev = (s, [])"
  by (simp add: step_def)

lemma run_Disabled: "phase s = Disabled \<Longrightarrow> run s evs = (s, [])"
  by (induction evs) (simp_all add: step_Disabled)

lemma run_Cons:
  "run s (ev # evs) =
     (fst (run (fst (step s ev)) evs), snd (step s ev) @ snd (run (fst (step s ev)) evs))"
  by (simp split: prod.splits)

lemma step_disabling:
  "phase (fst (step s Close)) = Disabled"
  "phase (fst (step s DisableTracer)) = Disabled"
  "phase s = Reporting \<Longrightarrow>
   phase (fst (step s (ReportResult (Response errors True) rotation_due))) = Disabled"
  by (simp_all add: step_def Snapshot_def)

lemma step_Disabled_only_if:
  assumes "phase s \<noteq> Disabled" and "phase (fst (step s ev)) = Disabled"
  shows "ev = Close \<or> ev = DisableTracer \<or>
         (phase s = Reporting \<and> (\<exists>errors rotation_due.
            ev = ReportResult (Response errors True) rotation_due))"
  using assms
  by (cases ev)
     (auto simp: step_def Snapshot_def split: if_splits prod.splits report_outcome.splits)

text \<open>
  C7. An engine that processes a response carrying \<open>Disable()\<close> for its report in
  flight, or a call of \<open>Close\<close> or \<open>Disable\<close>, is Disabled afterwards. From then on
  every sequence of events, whatever it contains, leaves the whole state as it is (so the
  engine is still Disabled and its buffer has not changed) and makes no call on the
  collector client: no \<open>Report\<close>, and no \<open>ConnectClient\<close> either. An engine that reports
  receives the response only for a report it has made, so the disabling events are these.
\<close>

theorem C7_disabled_is_terminal:
  assumes "ev = Close \<or> ev = DisableTracer \<or>
           (phase s = Reporting \<and> (\<exists>errors rotation_due.
              ev = ReportResult (Response errors True) rotation_due))"
  shows "phase (fst (step s ev)) = Disabled \<and>
         run (fst (step s ev)) evs = (fst (step s ev), []) \<and>
         (\<forall>call \<in> set (snd (run (fst (step s ev)) evs)). \<not> is_Report call)"
proof -
  have d: "phase (fst (step s ev)) = Disabled"
    using assms step_disabling by blast
  then have r: "run (fst (step s ev)) evs = (fst (step s ev), [])"
    by (rule run_Disabled)
  from d r show ?thesis by simp
qed

theorem C7_disabled_is_terminal_witness:
  "step scenario_engine (Trigger TimerElapsed) =
     (scenario_engine \<lparr> phase := Reporting,
        buffer := \<lparr> rawSpans = [], capacity = 2, droppedSpanCount = 0 \<rparr> \<rparr>, [Report [7]]) \<and>
   phase (fst (step (fst (step scenario_engine (Trigger TimerElapsed)))
     (ReportResult (Response [] True) False))) = Disabled \<and>
   snd (run scenario_engine
     (Trigger TimerElapsed # ReportResult (Response [] True) False # scenario_later_events)) =
     [Report [7], CloseConnection]"
proof -
  let ?s1 = "fst (step scenario_engine (Trigger TimerElapsed))"
  let ?ev = "ReportResult (Response [] True) False :: nat event"
  have s1: "step scenario_engine (Trigger TimerElapsed) =
     (scenario_engine \<lparr> phase := Reporting,
        buffer := \<lparr> rawSpans = [], capacity = 2, droppedSpanCount = 0 \<rparr> \<rparr>, [Report [7]])"
    by (simp add: step_def scenario_engine_def Snapshot_def)
  have h: "?ev = Close \<or> ?ev = DisableTracer \<or>
           (phase ?s1 = Reporting \<and> (\<exists>errors rotation_due.
              ?ev = ReportResult (Response errors True) rotation_due))"
    by (auto simp: s1)
  note t = C7_disabled_is_terminal [OF h, of scenario_later_events]
  have s2: "snd (step ?s1 ?ev) = [CloseConnection]"
    unfolding s1 fst_conv by (simp add: step_def)
  have "snd (run scenario_engine (Trigger TimerElapsed # ?ev # scenario_later_events)) =
     [Report [7], CloseConnection]"
    unfolding run_Cons using t s2 by (simp add: s1)
  with t s1 show ?thesis by simp
qed

subsection \<open>Powers of two and the binary exponent\<close>

lemma pow2_powi: "pow2 k = 2 powi k"
  by (simp add: pow2_def power_int_def inverse_eq_divide power_one_over)

lemma pow2_pos [simp]: "0 < pow2 k"
  by (simp add: pow2_powi)

lemma pow2_add: "pow2 (a + b) = pow2 a * pow2 b"
  by (simp add: pow2_powi power_int_add)

lemma pow2_diff: "pow2 (a - b) = pow2 a / pow2 b"
  by (simp add: pow2_powi power_int_diff)

lemma pow2_strict_mono: "a < b \<Longrightarrow> pow2 a < pow2 b"
  by (simp add: pow2_powi power_int_strict_increasing)

lemma pow2_mono: "a \<le> b \<Longrightarrow> pow2 a \<le> pow2 b"
  by (simp add: pow2_powi power_int_increasing)

lemma pow2_less_iff [simp]: "pow2 a < pow2 b \<longleftrightarrow> a < b"
  using pow2_strict_mono [of a b] pow2_mono [of b a] by (cases "a < b") auto

lemma pow2_le_iff [simp]: "pow2 a \<le> pow2 b \<longleftrightarrow> a \<le> b"
  by (simp only: linorder_not_less [symmetric] pow2_less_iff)

lemma pow2_nat: "0 \<le> k \<Longrightarrow> pow2 k = 2 ^ nat k"
  by (simp add: pow2_def)

lemma pow2_0 [simp]: "pow2 0 = 1"
  by (simp add: pow2_def)

lemma pow2_1 [simp]: "pow2 1 = 2"
  by (simp add: pow2_def)

lemma pow2_Suc: "pow2 (k + 1) = 2 * pow2 k"
  by (simp add: pow2_add)

lemma binary_exponent_bounds:
  assumes "0 < x"
  shows "pow2 (binary_exponent x) \<le> x" and "x < pow2 (binary_exponent x + 1)"
proof -
  have "pow2 (binary_exponent x) \<le> x \<and> x < pow2 (binary_exponent x + 1)"
  proof (cases "1 \<le> x")
    case True
    define n where "n = \<lfloor>x\<rfloor>"
    have n: "0 < n" using True by (simp add: n_def)
    from bitlen_bounds [OF n] have b: "2 ^ nat (bitlen n - 1) \<le> n" "n < 2 ^ nat (bitlen n)"
      by simp_all
    have bl: "1 \<le> bitlen n" using n by (simp add: bitlen_def floorlog_def)
    have e: "binary_exponent x = bitlen n - 1"
      using True by (simp add: binary_exponent_def n_def)
    have "pow2 (bitlen n - 1) = of_int (2 ^ nat (bitlen n - 1))"
      using bl by (simp add: pow2_nat)
    also have "\<dots> \<le> of_int n" using b(1) by (simp only: of_int_le_iff)
    also have "\<dots> \<le> x" by (simp add: n_def)
    finally have lo: "pow2 (bitlen n - 1) \<le> x" .
    have "x < of_int (n + 1)" using floor_correct [of x] by (simp add: n_def)
    also have "\<dots> \<le> of_int (2 ^ nat (bitlen n))"
      using b(2) by (simp only: of_int_le_iff)
    also have "\<dots> = pow2 (bitlen n - 1 + 1)"
      using bl by (simp add: pow2_nat)
    finally have hi: "x < pow2 (bitlen n - 1 + 1)" .
    from lo hi e show ?thesis by simp
  next
    case False
    define m where "m = \<lceil>1 / x\<rceil> - 1"
    from False assms have inv: "1 < 1 / x" by simp
    then have m: "0 < m" by (simp add: m_def less_ceiling_iff)
    from bitlen_bounds [OF m] have b: "2 ^ nat (bitlen m - 1) \<le> m" "m < 2 ^ nat (bitlen m)"
      by simp_all
    have bl: "1 \<le> bitlen m" using m by (simp add: bitlen_def floorlog_def)
    have e: "binary_exponent x = - bitlen m"
      using False by (simp add: binary_exponent_def m_def)
    have "1 / x \<le> of_int (m + 1)" by (simp add: m_def)
    also have "\<dots> \<le> of_int (2 ^ nat (bitlen m))"
      using b(2) by (simp only: of_int_le_iff)
    finally have "1 / x \<le> 2 ^ nat (bitlen m)" by simp
    then have "1 / 2 ^ nat (bitlen m) \<le> x"
      using assms by (simp add: field_simps)
    then have lo: "pow2 (- bitlen m) \<le> x"
      using bl by (simp add: pow2_def)
    have "of_int m < 1 / x" using ceiling_correct [of "1 / x"] by (simp add: m_def)
    with b(1) have "of_int (2 ^ nat (bitlen m - 1)) < 1 / x"
      by (meson le_less_trans of_int_le_iff)
    then have "2 ^ nat (bitlen m - 1) < 1 / x" by simp
    then have "x < 1 / 2 ^ nat (bitlen m - 1)"
      using assms by (simp add: field_simps)
    also have "\<dots> = pow2 (- bitlen m + 1)"
    proof (cases "bitlen m = 1")
      case True
      then show ?thesis by simp
    next
      case False
      with bl have "- bitlen m + 1 < 0" by simp
      moreover have "nat (- (- bitlen m + 1)) = nat (bitlen m - 1)" by simp
      ultimately show ?thesis by (simp add: pow2_def)
    qed
    finally have hi: "x < pow2 (- bitlen m + 1)" .
    from lo hi e show ?thesis by simp
  qed
  then show "pow2 (binary_exponent x) \<le> x" and "x < pow2 (binary_exponent x + 1)"
    by simp_all
qed

lemma binary_exponent_unique:
  assumes "pow2 e \<le> x" and "x < pow2 (e + 1)"
  shows "binary_exponent x = e"
proof -
  have pos: "0 < x" using assms(1) pow2_pos [of e] by linarith
  note b = binary_exponent_bounds [OF pos]
  have "pow2 e < pow2 (binary_exponent x + 1)" using assms(1) b(2) by linarith
  moreover have "pow2 (binary_exponent x) < pow2 (e + 1)" using assms(2) b(1) by linarith
  ultimately show ?thesis by simp
qed

lemma binary_exponent_mono:
  assumes "0 < x" and "x \<le> y"
  shows "binary_exponent x \<le> binary_exponent y"
proof -
  have "0 < y" using assms by linarith
  from binary_exponent_bounds(1) [OF assms(1)] binary_exponent_bounds(2) [OF this] assms(2)
  have "pow2 (binary_exponent x) < pow2 (binary_exponent y + 1)" by linarith
  then show ?thesis by simp
qed

lemma pow2_nonneg [simp]: "0 \<le> pow2 k"
  using pow2_pos [of k] by linarith

lemma pow2_neq_0 [simp]: "pow2 k \<noteq> 0"
  using pow2_pos [of k] by linarith

subsection \<open>Rounding to the nearest integer, ties to even\<close>

lemma round_half_even_of_int [simp]: "round_half_even (of_int n) = n"
  by (simp add: round_half_even_def)

lemma round_half_even_floor: "\<lfloor>q\<rfloor> \<le> round_half_even q"
  by (simp add: round_half_even_def Let_def)

lemma round_half_even_floor_Suc: "round_half_even q \<le> \<lfloor>q\<rfloor> + 1"
  by (simp add: round_half_even_def Let_def)

lemma round_half_even_ge_int:
  assumes "of_int n \<le> q"
  shows "n \<le> round_half_even q"
proof -
  have "n \<le> \<lfloor>q\<rfloor>" using assms by (simp add: le_floor_iff)
  with round_half_even_floor [of q] show ?thesis by linarith
qed

lemma round_half_even_le_int:
  assumes "q \<le> of_int n"
  shows "round_half_even q \<le> n"
proof (cases "q = of_int n")
  case True
  then show ?thesis by simp
next
  case False
  with assms have "q < of_int n" by simp
  then have "\<lfloor>q\<rfloor> < n" by (simp add: floor_less_iff)
  with round_half_even_floor_Suc [of q] show ?thesis by linarith
qed

lemma round_half_even_upper: "of_int (round_half_even q) \<le> q + 1 / 2"
proof (cases "q - of_int \<lfloor>q\<rfloor> < 1 / 2")
  case True
  then have e: "round_half_even q = \<lfloor>q\<rfloor>" by (simp add: round_half_even_def Let_def)
  show ?thesis unfolding e using of_int_floor_le [of q] by linarith
next
  case False
  have "of_int (round_half_even q) \<le> (of_int (\<lfloor>q\<rfloor> + 1) :: rat)"
    using round_half_even_floor_Suc [of q] by (simp only: of_int_le_iff)
  with False show ?thesis by simp
qed

lemma round_half_even_mono:
  assumes "q \<le> q'"
  shows "round_half_even q \<le> round_half_even q'"
proof (cases "\<lfloor>q\<rfloor> = \<lfloor>q'\<rfloor>")
  case True
  with assms show ?thesis
    by (auto simp: round_half_even_def Let_def)
next
  case False
  with assms have "\<lfloor>q\<rfloor> < \<lfloor>q'\<rfloor>"
    using floor_mono [of q q'] by linarith
  with round_half_even_floor_Suc [of q] round_half_even_floor [of q'] show ?thesis
    by linarith
qed

subsection \<open>Rounding to binary64\<close>

lemma float64_round_0 [simp]: "float64_round 0 = 0"
  by (simp add: float64_round_def)

lemma float64_round_minus: "float64_round (- x) = - float64_round x"
  by (simp add: float64_round_def Let_def sgn_minus)

lemma float64_round_pos:
  "0 < x \<Longrightarrow>
   float64_round x =
     of_int (round_half_even (x / pow2 (binary_exponent x - 52))) * pow2 (binary_exponent x - 52)"
  by (simp add: float64_round_def Let_def)

lemma significand_bounds:
  assumes "0 < x"
  shows "2 ^ 52 \<le> x / pow2 (binary_exponent x - 52)"
    and "x / pow2 (binary_exponent x - 52) < 2 ^ 53"
proof -
  let ?e = "binary_exponent x"
  note b = binary_exponent_bounds [OF assms]
  have u: "pow2 ?e = 2 ^ 52 * pow2 (?e - 52)" "pow2 (?e + 1) = 2 ^ 53 * pow2 (?e - 52)"
    by (simp_all add: pow2_diff pow2_add pow2_nat)
  show "2 ^ 52 \<le> x / pow2 (?e - 52)"
    using b(1) by (simp add: u pos_le_divide_eq)
  show "x / pow2 (?e - 52) < 2 ^ 53"
    using b(2) by (simp add: u pos_divide_less_eq)
qed

lemma float64_round_pos_bounds:
  assumes "0 < x"
  shows "pow2 (binary_exponent x) \<le> float64_round x"
    and "float64_round x \<le> pow2 (binary_exponent x + 1)"
proof -
  let ?e = "binary_exponent x"
  let ?u = "pow2 (?e - 52)"
  let ?n = "round_half_even (x / ?u)"
  note s = significand_bounds [OF assms]
  have u: "pow2 ?e = 2 ^ 52 * ?u" "pow2 (?e + 1) = 2 ^ 53 * ?u"
    by (simp_all add: pow2_diff pow2_add pow2_nat)
  have "of_int (2 ^ 52) \<le> x / ?u" using s(1) by simp
  then have "2 ^ 52 \<le> ?n" by (rule round_half_even_ge_int)
  then have "(2 ^ 52 :: rat) \<le> of_int ?n" by (metis of_int_le_iff of_int_numeral of_int_power)
  then have "2 ^ 52 * ?u \<le> of_int ?n * ?u" by (simp add: mult_right_mono)
  then show "pow2 ?e \<le> float64_round x"
    by (simp add: float64_round_pos [OF assms] u)
  have "x / ?u \<le> of_int (2 ^ 53)" using s(2) by simp
  then have "?n \<le> 2 ^ 53" by (rule round_half_even_le_int)
  then have "of_int ?n \<le> (2 ^ 53 :: rat)" by (metis of_int_le_iff of_int_numeral of_int_power)
  then have "of_int ?n * ?u \<le> 2 ^ 53 * ?u" by (simp add: mult_right_mono)
  then show "float64_round x \<le> pow2 (?e + 1)"
    by (simp add: float64_round_pos [OF assms] u)
qed

lemma float64_round_pos_pos: "0 < x \<Longrightarrow> 0 < float64_round x"
  using float64_round_pos_bounds(1) [of x] pow2_pos [of "binary_exponent x"] by linarith

lemma float64_round_mono_pos:
  assumes "0 < x" and "x \<le> y"
  shows "float64_round x \<le> float64_round y"
proof -
  have y: "0 < y" using assms by linarith
  have le: "binary_exponent x \<le> binary_exponent y"
    using assms by (rule binary_exponent_mono)
  show ?thesis
  proof (cases "binary_exponent x = binary_exponent y")
    case True
    let ?u = "pow2 (binary_exponent y - 52)"
    have "x / ?u \<le> y / ?u"
      by (rule divide_right_mono) (use assms(2) in simp_all)
    then have "round_half_even (x / ?u) \<le> round_half_even (y / ?u)"
      by (rule round_half_even_mono)
    then have "of_int (round_half_even (x / ?u)) * ?u \<le> of_int (round_half_even (y / ?u)) * ?u"
      by (simp add: mult_right_mono)
    then show ?thesis
      by (simp add: float64_round_pos [OF assms(1)] float64_round_pos [OF y] True)
  next
    case False
    with le have "binary_exponent x + 1 \<le> binary_exponent y" by simp
    then have "pow2 (binary_exponent x + 1) \<le> pow2 (binary_exponent y)" by simp
    with float64_round_pos_bounds(2) [OF assms(1)] float64_round_pos_bounds(1) [OF y]
    show ?thesis by linarith
  qed
qed

lemma float64_round_mono:
  assumes "x \<le> y"
  shows "float64_round x \<le> float64_round y"
proof -
  consider "0 < x" | "x = 0" | "x < 0" by linarith
  then show ?thesis
  proof cases
    case 1
    then show ?thesis using assms by (rule float64_round_mono_pos)
  next
    case 2
    show ?thesis
    proof (cases "y = 0")
      case True
      with 2 show ?thesis by simp
    next
      case False
      with 2 assms have "0 < y" by simp
      from float64_round_pos_pos [OF this] 2 show ?thesis by simp
    qed
  next
    case 3
    consider "0 < y" | "y = 0" | "y < 0" by linarith
    then show ?thesis
    proof cases
      case 1
      from float64_round_pos_pos [OF 1] float64_round_pos_pos [of "- x"] 3
      show ?thesis by (simp add: float64_round_minus)
    next
      case 2
      from float64_round_pos_pos [of "- x"] 3 2
      show ?thesis by (simp add: float64_round_minus)
    next
      case y: 3
      have "float64_round (- y) \<le> float64_round (- x)"
        using y assms by (intro float64_round_mono_pos) simp_all
      then show ?thesis by (simp add: float64_round_minus)
    qed
  qed
qed

text \<open>Integers of magnitude below \<open>2^53\<close> are binary64 numbers.\<close>

lemma float64_round_of_int_pos:
  assumes "0 < n" and "n < 2 ^ 53"
  shows "float64_round (of_int n) = of_int n"
proof -
  let ?x = "of_int n :: rat"
  let ?e = "binary_exponent ?x"
  have x: "0 < ?x" using assms(1) by simp
  have "pow2 ?e \<le> ?x" using binary_exponent_bounds(1) [OF x] .
  also have "?x < pow2 53" using assms(2) by (simp add: pow2_nat)
  finally have "?e < 53" by simp
  then have k: "0 \<le> 52 - ?e" by simp
  have "pow2 (?e - 52) = 1 / pow2 (52 - ?e)"
    using pow2_diff [of 0 "52 - ?e"] by simp
  also have "\<dots> = 1 / 2 ^ nat (52 - ?e)" using k by (simp add: pow2_nat)
  finally have u: "pow2 (?e - 52) = 1 / 2 ^ nat (52 - ?e)" .
  have q: "?x / pow2 (?e - 52) = of_int (n * 2 ^ nat (52 - ?e))"
    by (simp add: u)
  show ?thesis
    unfolding float64_round_pos [OF x] q round_half_even_of_int
    by (simp add: u)
qed

lemma float64_round_of_int:
  assumes "\<bar>n\<bar> < 2 ^ 53"
  shows "float64_round (of_int n) = of_int n"
proof -
  consider "0 < n" | "n = 0" | "n < 0" by linarith
  then show ?thesis
  proof cases
    case 1
    with assms show ?thesis by (simp add: float64_round_of_int_pos)
  next
    case 2
    then show ?thesis by simp
  next
    case 3
    with assms have "float64_round (of_int (- n)) = of_int (- n)"
      by (intro float64_round_of_int_pos) simp_all
    then show ?thesis by (simp add: float64_round_minus)
  qed
qed

text \<open>Rounding up adds at most half a unit in the last place.\<close>

lemma float64_round_upper:
  assumes "0 < x"
  shows "float64_round x \<le> x + x / 2 ^ 53"
proof -
  let ?u = "pow2 (binary_exponent x - 52)"
  have u: "0 < ?u" by simp
  have "of_int (round_half_even (x / ?u)) \<le> x / ?u + 1 / 2"
    by (rule round_half_even_upper)
  from mult_right_mono [OF this, of ?u] u
  have "of_int (round_half_even (x / ?u)) * ?u \<le> (x / ?u + 1 / 2) * ?u"
    by simp
  also have "\<dots> = x + ?u / 2" by (simp add: field_simps)
  also have "?u / 2 \<le> x / 2 ^ 53"
  proof -
    have "2 ^ 52 * ?u \<le> x"
      using significand_bounds(1) [OF assms] u by (simp add: pos_le_divide_eq)
    then show ?thesis by simp
  qed
  finally show ?thesis by (simp add: float64_round_pos [OF assms])
qed

subsection \<open>The rounding is to the nearest binary64 number\<close>

lemma round_half_even_nearest:
  "\<bar>of_int (round_half_even q) - q\<bar> \<le> \<bar>of_int m - q\<bar>"
proof -
  let ?n = "\<lfloor>q\<rfloor>"
  let ?d = "q - of_int ?n"
  have d: "0 \<le> ?d" "?d < 1" using floor_correct [of q] by simp_all
  have r: "\<bar>of_int (round_half_even q) - q\<bar> \<le> ?d"
    "\<bar>of_int (round_half_even q) - q\<bar> \<le> 1 - ?d"
    using d by (auto simp: round_half_even_def Let_def)
  show ?thesis
  proof (cases "m \<le> ?n")
    case True
    then have "(of_int m :: rat) \<le> of_int ?n" by (simp only: of_int_le_iff)
    with r(1) d show ?thesis by linarith
  next
    case False
    then have "?n + 1 \<le> m" by simp
    then have "(of_int (?n + 1) :: rat) \<le> of_int m" by (simp only: of_int_le_iff)
    with r(2) d show ?thesis by simp
  qed
qed

lemma pow2_split: "pow2 a = pow2 (a - b) * pow2 b"
  using pow2_add [of "a - b" b] by simp

lemma is_binary64_minus: "is_binary64 (- z) = is_binary64 z"
  by (simp add: is_binary64_def)

lemma is_binary64_multiple:
  assumes "0 < z" and "pow2 e \<le> z" and "z \<le> pow2 (e + 1)" and "is_binary64 z"
  shows "\<exists>m. z = of_int m * pow2 (e - 52)"
proof (cases "z = pow2 (e + 1)")
  case True
  have "pow2 (e + 1) = of_int (2 ^ 53) * pow2 (e - 52)"
    by (simp add: pow2_diff pow2_add pow2_nat)
  with True show ?thesis by blast
next
  case False
  with assms(3) have "z < pow2 (e + 1)" by simp
  with assms(2) have e: "binary_exponent z = e" by (rule binary_exponent_unique)
  from assms(1,4) obtain m where "z / pow2 (e - 52) = of_int m"
    by (auto simp: is_binary64_def Let_def e)
  then have "z = of_int m * pow2 (e - 52)" by (simp add: field_simps)
  then show ?thesis by blast
qed

lemma float64_round_is_binary64_pos:
  assumes "0 < x"
  shows "is_binary64 (float64_round x)"
proof -
  let ?e = "binary_exponent x"
  let ?u = "pow2 (?e - 52)"
  let ?n = "round_half_even (x / ?u)"
  let ?y = "float64_round x"
  have y: "?y = of_int ?n * ?u" using assms by (rule float64_round_pos)
  have ypos: "0 < ?y" using assms by (rule float64_round_pos_pos)
  note b = float64_round_pos_bounds [OF assms]
  show ?thesis
  proof (cases "?y = pow2 (?e + 1)")
    case True
    have "binary_exponent (pow2 (?e + 1)) = ?e + 1"
      by (rule binary_exponent_unique) simp_all
    moreover have "pow2 (?e + 1) / pow2 (?e + 1 - 52) = of_int (2 ^ 52)"
    proof -
      have "pow2 (?e + 1) = pow2 (?e + 1 - 52) * pow2 52"
        by (rule pow2_split)
      then show ?thesis by (simp add: pow2_nat)
    qed
    ultimately show ?thesis
      unfolding is_binary64_def Let_def True
      by (simp only: abs_of_pos pow2_pos floor_of_int) simp
  next
    case False
    with b(2) have "?y < pow2 (?e + 1)" by simp
    with b(1) have e: "binary_exponent ?y = ?e" by (rule binary_exponent_unique)
    have "?y / ?u = of_int ?n" by (simp add: y)
    then show ?thesis
      using ypos unfolding is_binary64_def Let_def by (simp add: e)
  qed
qed

lemma float64_round_is_binary64: "is_binary64 (float64_round x)"
proof -
  consider "0 < x" | "x = 0" | "x < 0" by linarith
  then show ?thesis
  proof cases
    case 1
    then show ?thesis by (rule float64_round_is_binary64_pos)
  next
    case 2
    then show ?thesis by (simp add: is_binary64_def)
  next
    case 3
    then have "is_binary64 (float64_round (- x))"
      by (intro float64_round_is_binary64_pos) simp
    then show ?thesis by (simp add: float64_round_minus is_binary64_minus)
  qed
qed

lemma float64_round_nearest_pos:
  assumes "0 < x" and "is_binary64 z"
  shows "\<bar>float64_round x - x\<bar> \<le> \<bar>z - x\<bar>"
proof -
  let ?e = "binary_exponent x"
  let ?u = "pow2 (?e - 52)"
  let ?q = "x / ?u"
  let ?y = "float64_round x"
  have y: "?y = of_int (round_half_even ?q) * ?u" using assms(1) by (rule float64_round_pos)
  note xb = binary_exponent_bounds [OF assms(1)]
  have near: "\<bar>?y - x\<bar> \<le> \<bar>of_int m * ?u - x\<bar>" for m
  proof -
    have scale: "\<bar>of_int k * ?u - x\<bar> = \<bar>of_int k - ?q\<bar> * ?u" for k
    proof -
      have "of_int k * ?u - x = (of_int k - ?q) * ?u" by (simp add: field_simps)
      then show ?thesis by (simp add: abs_mult)
    qed
    have "\<bar>?y - x\<bar> = \<bar>of_int (round_half_even ?q) - ?q\<bar> * ?u"
      unfolding y by (rule scale)
    also have "\<dots> \<le> \<bar>of_int m - ?q\<bar> * ?u"
      by (intro mult_right_mono round_half_even_nearest) simp
    also have "\<dots> = \<bar>of_int m * ?u - x\<bar>"
      by (rule scale [symmetric])
    finally show ?thesis .
  qed
  have lo: "pow2 ?e = of_int (2 ^ 52) * ?u" and hi: "pow2 (?e + 1) = of_int (2 ^ 53) * ?u"
    by (simp_all add: pow2_diff pow2_add pow2_nat)
  consider "z < pow2 ?e" | "pow2 ?e \<le> z" "z \<le> pow2 (?e + 1)" | "pow2 (?e + 1) < z"
    by linarith
  then show ?thesis
  proof cases
    case 1
    have "\<bar>?y - x\<bar> \<le> \<bar>pow2 ?e - x\<bar>" unfolding lo by (rule near)
    with 1 xb(1) show ?thesis by linarith
  next
    case 2
    have "0 < z" using 2(1) pow2_pos [of ?e] by linarith
    from is_binary64_multiple [OF this 2 assms(2)] obtain m where "z = of_int m * ?u" ..
    then show ?thesis by (simp only: near)
  next
    case 3
    have "\<bar>?y - x\<bar> \<le> \<bar>pow2 (?e + 1) - x\<bar>" unfolding hi by (rule near)
    with 3 xb(2) show ?thesis by linarith
  qed
qed

text \<open>
  \<open>float64_round x\<close> is a binary64 number, and no binary64 number is nearer to \<open>x\<close>.
\<close>

lemma float64_round_nearest:
  assumes "is_binary64 z"
  shows "\<bar>float64_round x - x\<bar> \<le> \<bar>z - x\<bar>"
proof -
  consider "0 < x" | "x = 0" | "x < 0" by linarith
  then show ?thesis
  proof cases
    case 1
    then show ?thesis using assms by (rule float64_round_nearest_pos)
  next
    case 2
    then show ?thesis by simp
  next
    case 3
    then have "0 < - x" by simp
    moreover have "is_binary64 (- z)" using assms by (simp add: is_binary64_minus)
    ultimately have "\<bar>float64_round (- x) - (- x)\<bar> \<le> \<bar>(- z) - (- x)\<bar>"
      by (rule float64_round_nearest_pos)
    then show ?thesis by (simp add: float64_round_minus abs_minus_commute)
  qed
qed

text \<open>Known binary64 values: 0.1, 0.2 and 1.1.\<close>

lemma float64_round_known_values:
  "float64_round (1 / 10) = 3602879701896397 / 2 ^ 55"
  "float64_round (1 / 5) = 3602879701896397 / 2 ^ 54"
  "float64_round (11 / 10) = 2476979795053773 / 2 ^ 51"
  by code_simp+

subsection \<open>The jitter factor\<close>

lemma const_0_2_eq: "const_0_2 = 3602879701896397 / 18014398509481984"
  by code_simp

lemma float64_round_const_0_2: "float64_round const_0_2 = const_0_2"
  unfolding const_0_2_eq by code_simp

lemma float64_round_1: "float64_round 1 = 1"
  using float64_round_of_int [of 1] by simp

lemma float64_round_1_2:
  "float64_round (1 + const_0_2) = 5404319552844595 / 4503599627370496"
  unfolding const_0_2_eq by code_simp

lemma jitter_factor_bounds:
  assumes "0 \<le> rand_Float64 env" and "rand_Float64 env < 1"
  shows "1 \<le> jitter_factor env"
    and "jitter_factor env \<le> 5404319552844595 / 4503599627370496"
proof -
  let ?r = "rand_Float64 env"
  have c: "0 \<le> const_0_2" by (simp add: const_0_2_eq)
  have p: "0 \<le> const_0_2 * ?r" "const_0_2 * ?r \<le> const_0_2"
    using assms c by (simp_all add: mult_left_le)
  have t: "0 \<le> float64_round (const_0_2 * ?r)" "float64_round (const_0_2 * ?r) \<le> const_0_2"
    using float64_round_mono [OF p(1)] float64_round_mono [OF p(2)]
    by (simp_all add: float64_round_const_0_2)
  have lo: "float64_round 1 \<le> float64_round (1 + const_0_2 * ?r)"
    "float64_round 1 \<le> float64_round (1 + float64_round (const_0_2 * ?r))"
    using p(1) t(1) by (simp_all add: float64_round_mono)
  have hi: "float64_round (1 + const_0_2 * ?r) \<le> float64_round (1 + const_0_2)"
    "float64_round (1 + float64_round (const_0_2 * ?r)) \<le> float64_round (1 + const_0_2)"
    using p(2) t(2) by (simp_all add: float64_round_mono)
  show "1 \<le> jitter_factor env"
    using lo by (simp add: jitter_factor_def float64_add_def float64_mul_def float64_round_1)
  show "jitter_factor env \<le> 5404319552844595 / 4503599627370496"
    using hi by (simp add: jitter_factor_def float64_add_def float64_mul_def float64_round_1_2)
qed

subsection \<open>The jittered period\<close>

lemma float64_truncate_minus: "float64_truncate (- y) = - float64_truncate y"
  by (auto simp: float64_truncate_def ceiling_def)

lemma float64_of_int_exact: "\<bar>d\<bar> < 2 ^ 53 \<Longrightarrow> float64_of_int d = of_int d"
  by (simp add: float64_of_int_def float64_round_of_int)

text \<open>The product of line 323 before the conversion to \<open>time.Duration\<close>.\<close>

lemma jitter_pos_bounds:
  assumes "0 < d" and "d \<le> 2 ^ 50"
    and "0 \<le> rand_Float64 env" and "rand_Float64 env < 1"
  shows "jitter env d = \<lfloor>float64_round (of_int d * jitter_factor env)\<rfloor>"
    and "d \<le> jitter env d"
    and "5 * jitter env d \<le> 6 * d"
proof -
  let ?f = "jitter_factor env"
  let ?x = "of_int d * ?f :: rat"
  let ?y = "float64_round ?x"
  note f = jitter_factor_bounds [OF assms(3,4)]
  have d: "(0::rat) < of_int d" "(of_int d :: rat) \<le> 2 ^ 50"
    using assms(1,2) by (simp_all add: of_int_le_numeral_power_cancel_iff)
  have fd: "float64_of_int d = of_int d"
    using assms(1,2) by (intro float64_of_int_exact) simp
  have rd: "float64_round (of_int d) = of_int d"
    using fd by (simp add: float64_of_int_def)
  have x_lo: "of_int d \<le> ?x" using d(1) f(1) by (simp add: mult_le_cancel_left1)
  then have x_pos: "0 < ?x" using d(1) by linarith
  have y_lo: "of_int d \<le> ?y" using float64_round_mono [OF x_lo] by (simp add: rd)
  have "?x \<le> of_int d * (5404319552844595 / 4503599627370496)"
    using d(1) f(2) by (simp only: mult_le_cancel_left_pos)
  then have x_hi: "?x \<le> of_int d * (5404319552844595 / 4503599627370496)" .
  have "?y \<le> ?x + ?x / 2 ^ 53" using x_pos by (rule float64_round_upper)
  also have "\<dots> = ?x * (1 + 1 / 2 ^ 53)" by (simp add: algebra_simps)
  also have "\<dots> \<le> of_int d * (5404319552844595 / 4503599627370496) * (1 + 1 / 2 ^ 53)"
    using x_hi by (simp only: mult_le_cancel_right) simp
  also have "\<dots> \<le> of_int d * (6 / 5) + of_int d / 2 ^ 53"
    using d(1) by (simp add: field_simps)
  also have "\<dots> \<le> of_int d * (6 / 5) + 1 / 8"
    using d(2) by simp
  finally have y_hi: "?y \<le> of_int d * (6 / 5) + 1 / 8" .
  have t: "float64_truncate ?y = \<lfloor>?y\<rfloor>"
    using y_lo d(1) by (simp add: float64_truncate_def)
  have fl_lo: "d \<le> \<lfloor>?y\<rfloor>" using y_lo by (simp add: le_floor_iff)
  have "of_int \<lfloor>?y\<rfloor> \<le> ?y" by (rule of_int_floor_le)
  with y_hi have "5 * (of_int \<lfloor>?y\<rfloor> :: rat) < 6 * of_int d + 1" by linarith
  then have "(of_int (5 * \<lfloor>?y\<rfloor>) :: rat) < of_int (6 * d + 1)" by simp
  then have "5 * \<lfloor>?y\<rfloor> < 6 * d + 1" by (simp only: of_int_less_iff)
  then have fl_hi: "5 * \<lfloor>?y\<rfloor> \<le> 6 * d" by simp
  define n where "n = \<lfloor>?y\<rfloor>"
  have "- (2 ^ 63) \<le> n \<and> n < 2 ^ 63"
    using fl_lo fl_hi assms(1,2) unfolding n_def [symmetric] by simp
  then have j: "jitter env d = \<lfloor>?y\<rfloor>"
    unfolding jitter_def int64_of_float64_def Let_def float64_mul_def fd t n_def [symmetric]
    by simp
  show "jitter env d = \<lfloor>?y\<rfloor>" by (rule j)
  show "d \<le> jitter env d" using fl_lo by (simp add: j)
  show "5 * jitter env d \<le> 6 * d" using fl_hi by (simp add: j)
qed

lemma jitter_neg:
  assumes "d < 0" and "- (2 ^ 50) \<le> d"
    and "0 \<le> rand_Float64 env" and "rand_Float64 env < 1"
  shows "jitter env d = - jitter env (- d)"
proof -
  have p: "0 < - d" "- d \<le> 2 ^ 50" using assms(1,2) by simp_all
  note b = jitter_pos_bounds [OF p assms(3,4)]
  let ?y = "float64_round (of_int (- d) * jitter_factor env)"
  have fd: "float64_of_int d = of_int d"
    using assms(1,2) by (intro float64_of_int_exact) simp
  have m: "float64_mul (float64_of_int d) (jitter_factor env) = - ?y"
    using float64_round_minus [of "of_int (- d) * jitter_factor env"]
    by (simp add: float64_mul_def fd)
  have "(0::rat) < of_int (- d) * jitter_factor env"
    using p(1) jitter_factor_bounds(1) [OF assms(3,4)] by (intro mult_pos_pos) simp_all
  then have "0 < ?y" by (rule float64_round_pos_pos)
  then have "float64_truncate ?y = \<lfloor>?y\<rfloor>" by (simp add: float64_truncate_def)
  then have t: "float64_truncate (float64_mul (float64_of_int d) (jitter_factor env)) =
      - jitter env (- d)"
    unfolding m float64_truncate_minus by (simp add: b(1))
  have "- (2 ^ 63) \<le> - jitter env (- d)" "- jitter env (- d) < 2 ^ 63"
    using b(2,3) p by simp_all
  then show ?thesis
    by (simp add: jitter_def int64_of_float64_def Let_def t)
qed

lemma jitter_neg_bounds:
  assumes "d < 0" and "- (2 ^ 50) \<le> d"
    and "0 \<le> rand_Float64 env" and "rand_Float64 env < 1"
  shows "jitter env d \<le> d" and "6 * d \<le> 5 * jitter env d"
proof -
  have p: "0 < - d" "- d \<le> 2 ^ 50" using assms(1,2) by simp_all
  note b = jitter_pos_bounds [OF p assms(3,4)]
  note n = jitter_neg [OF assms]
  show "jitter env d \<le> d" using b(2) by (simp add: n)
  show "6 * d \<le> 5 * jitter env d" using b(3) by (simp add: n)
qed

text \<open>
  The upper end \<open>1.2 * d\<close> is reached: with the largest draw below 1 a period of 5
  nanoseconds becomes 6. And a period that is not a binary64 number can be shortened: with
  the draw 0 a period of \<open>2^53 + 1\<close> nanoseconds becomes \<open>2^53\<close>.
\<close>

lemma jitter_upper_end_reached:
  "jitter (trivial_environment \<lparr> rand_Float64 := 1 - 1 / 2 ^ 53 \<rparr>) 5 = 6"
  by code_simp

lemma jitter_large_period_shortened:
  "jitter (trivial_environment \<lparr> rand_Float64 := 0 \<rparr>) (2 ^ 53 + 1) = 2 ^ 53"
  by code_simp

subsection \<open>The reconnect period after a successful call\<close>

lemma trivial_jitter_default: "jitter trivial_environment 300000000000 = 330000000000"
  by code_simp

lemma trivial_jitter_negative: "jitter trivial_environment (- 10) = - 11"
  by code_simp

lemma trivial_environment_rand:
  "0 \<le> rand_Float64 trivial_environment" "rand_Float64 trivial_environment < 1"
  by (simp_all add: trivial_environment_def)

lemma Initialize_Ok_intro:
  "fst (Initialize env opts) = Ok \<Longrightarrow> Initialize env opts = (Ok, snd (Initialize env opts))"
  by (simp add: prod_eq_iff)

lemma Initialize_Ok_iff:
  "fst (Initialize env opts) = Ok \<longleftrightarrow>
     AccessToken opts \<noteq> [] \<and> tags_lookup (Tags opts) GUIDKey = None \<and>
     set_component_tag env (tags_table opts) \<noteq> None"
  by (cases env opts rule: Initialize_cases) auto

lemma negative_period_Options_Ok:
  "fst (Initialize trivial_environment negative_period_Options) = Ok"
  by (simp add: Initialize_Ok_iff negative_period_Options_def trivial_Options_def
      zero_Options_def tags_lookup_def tags_table_def set_component_tag_def
      trivial_environment_def)

lemma negative_Options_Ok:
  "fst (Initialize trivial_environment negative_Options) = Ok"
  by (simp add: Initialize_Ok_iff negative_Options_def trivial_Options_def
      zero_Options_def tags_lookup_def tags_table_def set_component_tag_def
      trivial_environment_def)

text \<open>
  C3, as stated, fails for a negative period. With \<open>ReconnectPeriod = -10\<close> and the draw
  \<open>r = 1/2\<close> the call succeeds, the base is \<open>b = -10\<close>, and the final period is
  \<open>-11\<close>: it is below \<open>b\<close>, so it is not in \<open>[b, 1.2*b)\<close>, an interval that is empty
  for every negative \<open>b\<close>.
\<close>

theorem C3_negative_period_counterexample:
  "fst (Initialize trivial_environment negative_period_Options) = Ok \<and>
   rand_Float64 trivial_environment = 1 / 2 \<and>
   ReconnectPeriod negative_period_Options = - 10 \<and>
   ReconnectPeriod (snd (Initialize trivial_environment negative_period_Options)) = - 11 \<and>
   \<not> (- 10 \<le> ReconnectPeriod (snd (Initialize trivial_environment negative_period_Options)))"
proof -
  have r: "ReconnectPeriod negative_period_Options = - 10"
    by (simp add: negative_period_Options_def)
  have "ReconnectPeriod (snd (Initialize trivial_environment negative_period_Options)) =
      jitter trivial_environment (- 10)"
    using Initialize_Ok_fields(8) [OF Initialize_Ok_intro [OF negative_period_Options_Ok]]
    by (simp add: set_defaults_def r)
  then have "ReconnectPeriod (snd (Initialize trivial_environment negative_period_Options)) = - 11"
    by (simp only: trivial_jitter_negative)
  with negative_period_Options_Ok r show ?thesis
    by (simp add: trivial_environment_def)
qed

text \<open>
  C3, amended. After a successful call, let \<open>b\<close> be the period after zero-defaulting
  (the supplied value, or 5 minutes if zero). If \<open>b\<close> is positive and at most \<open>2^50\<close>
  nanoseconds (about 13 days), then for every draw \<open>0 \<le> r < 1\<close> the final period is the
  \<open>float64\<close> product of \<open>b\<close> and the \<open>float64\<close> value of \<open>1 + 0.2*r\<close>, truncated to
  whole nanoseconds; that factor lies in \<open>[1, 1.2)\<close>, and the final period lies in the
  closed interval \<open>[b, 1.2*b]\<close>: the jitter never shortens a positive period and
  lengthens it by at most 20%.
\<close>

theorem C3_jitter_lengthens_positive_period:
  assumes "Initialize env opts = (Ok, opts')"
    and "b = (if ReconnectPeriod opts = 0 then 5 * Minute else ReconnectPeriod opts)"
    and "0 < b" and "b \<le> 2 ^ 50"
    and "0 \<le> rand_Float64 env" and "rand_Float64 env < 1"
  shows "ReconnectPeriod opts' = \<lfloor>float64_round (of_int b * jitter_factor env)\<rfloor> \<and>
         1 \<le> jitter_factor env \<and> jitter_factor env < 6 / 5 \<and>
         b \<le> ReconnectPeriod opts' \<and> 5 * ReconnectPeriod opts' \<le> 6 * b"
proof -
  have p: "ReconnectPeriod opts' = jitter env b"
    using Initialize_Ok_fields(8) [OF assms(1)] assms(2)
    by (simp add: set_defaults_def default_defs)
  note j = jitter_pos_bounds [OF assms(3-6)]
  note f = jitter_factor_bounds [OF assms(5,6)]
  have "jitter_factor env < 6 / 5" using f(2) by simp
  with p j f(1) show ?thesis by simp
qed

theorem C3_jitter_lengthens_positive_period_witness:
  "Initialize trivial_environment trivial_Options =
     (Ok, snd (Initialize trivial_environment trivial_Options)) \<and>
   ReconnectPeriod trivial_Options = 0 \<and> 5 * Minute = 300000000000 \<and>
   (0::int) < 300000000000 \<and> (300000000000::int) \<le> 2 ^ 50 \<and>
   0 \<le> rand_Float64 trivial_environment \<and> rand_Float64 trivial_environment < 1 \<and>
   ReconnectPeriod (snd (Initialize trivial_environment trivial_Options)) = 330000000000 \<and>
   (300000000000::int) \<le> 330000000000 \<and> (5::int) * 330000000000 \<le> 6 * 300000000000"
proof -
  have h: "Initialize trivial_environment trivial_Options =
     (Ok, snd (Initialize trivial_environment trivial_Options))"
    by (rule Initialize_Ok_intro [OF trivial_Options_Ok])
  have z: "ReconnectPeriod trivial_Options = 0"
    by (simp add: trivial_Options_def zero_Options_def)
  have m: "5 * Minute = 300000000000" by (simp add: duration_defs)
  have b: "(300000000000::int) =
      (if ReconnectPeriod trivial_Options = 0 then 5 * Minute
       else ReconnectPeriod trivial_Options)"
    by (simp add: z m)
  have v: "ReconnectPeriod (snd (Initialize trivial_environment trivial_Options)) = 330000000000"
    using Initialize_Ok_fields(8) [OF h]
    by (simp add: set_defaults_def default_defs z duration_defs trivial_jitter_default)
  have p: "(0::int) < 300000000000" "(300000000000::int) \<le> 2 ^ 50" by simp_all
  from C3_jitter_lengthens_positive_period [OF h b p trivial_environment_rand]
  have "(300000000000::int) \<le>
        ReconnectPeriod (snd (Initialize trivial_environment trivial_Options)) \<and>
      5 * ReconnectPeriod (snd (Initialize trivial_environment trivial_Options)) \<le>
        6 * 300000000000"
    by blast
  then have "(300000000000::int) \<le> 330000000000 \<and> (5::int) * 330000000000 \<le> 6 * 300000000000"
    by (simp only: v)
  with h z m v p trivial_environment_rand show ?thesis by blast
qed

text \<open>
  C10. An error return of \<open>Initialize\<close> has one of two causes, the empty access token or
  the GUID tag: no value of a limit, period or port causes one. After a successful call a
  negative \<open>MaxBufferedSpans\<close>, \<open>MaxLogKeyLen\<close>, \<open>MaxLogValueLen\<close>,
  \<open>MaxLogsPerSpan\<close>, \<open>ReportingPeriod\<close>, \<open>MinReportingPeriod\<close> or \<open>ReportTimeout\<close>
  is still the value supplied. A negative \<open>ReconnectPeriod\<close> is not replaced by the
  default either: the final value is the jitter of line 323 applied to the negative value
  itself, and it is still negative (for a value down to \<open>-2^50\<close> nanoseconds and a draw
  \<open>0 \<le> r < 1\<close>, at most the value supplied). The collector port alone is defaulted for
  every value that is zero or negative, to 80 with \<open>Plaintext\<close> and to 443 without; a
  positive port is kept.
\<close>

theorem C10_only_zero_is_defaulted:
  "(\<forall>e. fst (Initialize env opts) = Failed e \<longrightarrow>
      AccessToken opts = [] \<or> tags_lookup (Tags opts) GUIDKey \<noteq> None) \<and>
   (Initialize env opts = (Ok, opts') \<longrightarrow>
      (MaxBufferedSpans opts < 0 \<longrightarrow> MaxBufferedSpans opts' = MaxBufferedSpans opts) \<and>
      (MaxLogKeyLen opts < 0 \<longrightarrow> MaxLogKeyLen opts' = MaxLogKeyLen opts) \<and>
      (MaxLogValueLen opts < 0 \<longrightarrow> MaxLogValueLen opts' = MaxLogValueLen opts) \<and>
      (MaxLogsPerSpan opts < 0 \<longrightarrow> MaxLogsPerSpan opts' = MaxLogsPerSpan opts) \<and>
      (ReportingPeriod opts < 0 \<longrightarrow> ReportingPeriod opts' = ReportingPeriod opts) \<and>
      (MinReportingPeriod opts < 0 \<longrightarrow> MinReportingPeriod opts' = MinReportingPeriod opts) \<and>
      (ReportTimeout opts < 0 \<longrightarrow> ReportTimeout opts' = ReportTimeout opts) \<and>
      (ReconnectPeriod opts < 0 \<longrightarrow>
         ReconnectPeriod opts' = jitter env (ReconnectPeriod opts) \<and>
         (- (2 ^ 50) \<le> ReconnectPeriod opts \<and> 0 \<le> rand_Float64 env \<and> rand_Float64 env < 1 \<longrightarrow>
            ReconnectPeriod opts' \<le> ReconnectPeriod opts)) \<and>
      (Port (Collector opts) \<le> 0 \<longrightarrow>
         Port (Collector opts') = (if Plaintext (Collector opts) then 80 else 443)) \<and>
      (0 < Port (Collector opts) \<longrightarrow> Port (Collector opts') = Port (Collector opts)))"
proof (intro conjI allI impI)
  fix e
  assume "fst (Initialize env opts) = Failed e"
  then show "AccessToken opts = [] \<or> tags_lookup (Tags opts) GUIDKey \<noteq> None"
    by (cases env opts rule: Initialize_cases) simp_all
next
  assume ok: "Initialize env opts = (Ok, opts')"
  note f = Initialize_Ok_fields [OF ok]
  show "MaxBufferedSpans opts' = MaxBufferedSpans opts" if "MaxBufferedSpans opts < 0"
    using that by (simp add: f(1) set_defaults_def)
  show "MaxLogKeyLen opts' = MaxLogKeyLen opts" if "MaxLogKeyLen opts < 0"
    using that by (simp add: f(2) set_defaults_def)
  show "MaxLogValueLen opts' = MaxLogValueLen opts" if "MaxLogValueLen opts < 0"
    using that by (simp add: f(3) set_defaults_def)
  show "MaxLogsPerSpan opts' = MaxLogsPerSpan opts" if "MaxLogsPerSpan opts < 0"
    using that by (simp add: f(4) set_defaults_def)
  show "ReportingPeriod opts' = ReportingPeriod opts" if "ReportingPeriod opts < 0"
    using that by (simp add: f(5) set_defaults_def)
  show "MinReportingPeriod opts' = MinReportingPeriod opts" if "MinReportingPeriod opts < 0"
    using that by (simp add: f(6) set_defaults_def)
  show "ReportTimeout opts' = ReportTimeout opts" if "ReportTimeout opts < 0"
    using that by (simp add: f(7) set_defaults_def)
  show r: "ReconnectPeriod opts' = jitter env (ReconnectPeriod opts)"
    if "ReconnectPeriod opts < 0"
    using that by (simp add: f(8) set_defaults_def)
  show "ReconnectPeriod opts' \<le> ReconnectPeriod opts"
    if "ReconnectPeriod opts < 0"
      and "- (2 ^ 50) \<le> ReconnectPeriod opts \<and> 0 \<le> rand_Float64 env \<and> rand_Float64 env < 1"
    using that jitter_neg_bounds(1) [of "ReconnectPeriod opts" env] by (simp add: r)
  show "Port (Collector opts') = (if Plaintext (Collector opts) then 80 else 443)"
    if "Port (Collector opts) \<le> 0"
    using that by (simp add: f(9) set_endpoint_def default_defs)
  show "Port (Collector opts') = Port (Collector opts)" if "0 < Port (Collector opts)"
    using that by (simp add: f(9) set_endpoint_def)
qed

theorem C10_only_zero_is_defaulted_witness:
  "Initialize trivial_environment negative_Options =
     (Ok, snd (Initialize trivial_environment negative_Options)) \<and>
   MaxBufferedSpans (snd (Initialize trivial_environment negative_Options)) = - 1 \<and>
   MaxLogKeyLen (snd (Initialize trivial_environment negative_Options)) = - 2 \<and>
   MaxLogValueLen (snd (Initialize trivial_environment negative_Options)) = - 3 \<and>
   MaxLogsPerSpan (snd (Initialize trivial_environment negative_Options)) = - 4 \<and>
   ReportingPeriod (snd (Initialize trivial_environment negative_Options)) = - 5 \<and>
   MinReportingPeriod (snd (Initialize trivial_environment negative_Options)) = - 6 \<and>
   ReportTimeout (snd (Initialize trivial_environment negative_Options)) = - 7 \<and>
   ReconnectPeriod (snd (Initialize trivial_environment negative_Options)) = - 11 \<and>
   Port (Collector (snd (Initialize trivial_environment negative_Options))) = 80"
proof -
  have h: "Initialize trivial_environment negative_Options =
     (Ok, snd (Initialize trivial_environment negative_Options))"
    by (rule Initialize_Ok_intro [OF negative_Options_Ok])
  from C10_only_zero_is_defaulted
    [of trivial_environment negative_Options "snd (Initialize trivial_environment negative_Options)"]
    h
  show ?thesis
    by (simp add: negative_Options_def trivial_Options_def zero_Options_def
        trivial_jitter_negative)
qed


end
